theory Spec2Isabelle
  imports
    Complex_Main
    "HOL-Library.Char_ord"
    "HOL-Library.List_Lexorder"
    "HOL-Library.Product_Lexorder"
begin

section \<open>The GitHub issues analyzer: fetch, filter, aggregate, report\<close>

text \<open>
  A shallow embedding of \<^verbatim>\<open>src/issue-analyzer/github-issues-analyzer.py\<close>: the paginated
  fetch loop \<^verbatim>\<open>get_closed_issues\<close>, the aggregation \<^verbatim>\<open>analyze_issues\<close> and the list
  handling of the CSV and JSON exports. Exceptions are values of a sum type, the
  \<^verbatim>\<open>while True\<close> loop is a partial function, dictionaries are association lists in
  insertion order, and the remote service is a function from the page number to its
  response.
\<close>

subsection \<open>Exceptions\<close>

datatype py_error = ValueError | TypeError

subsection \<open>Naive datetimes\<close>

text \<open>
  Python's \<^verbatim>\<open>datetime\<close> without a time zone: seven fields, compared field by field
  from the year down to the microsecond.
\<close>

record datetime =
  year :: nat
  month :: nat
  day :: nat
  hour :: nat
  minute :: nat
  second :: nat
  microsecond :: nat

definition dt_key :: "datetime \<Rightarrow> nat \<times> nat \<times> nat \<times> nat \<times> nat \<times> nat \<times> nat" where
  "dt_key d = (year d, month d, day d, hour d, minute d, second d, microsecond d)"

definition dt_le :: "datetime \<Rightarrow> datetime \<Rightarrow> bool" where
  "dt_le a b = (dt_key a \<le> dt_key b)"

definition dt_lt :: "datetime \<Rightarrow> datetime \<Rightarrow> bool" where
  "dt_lt a b = (dt_key a < dt_key b)"

definition is_leap :: "nat \<Rightarrow> bool" where
  "is_leap y = (y mod 4 = 0 \<and> (y mod 100 \<noteq> 0 \<or> y mod 400 = 0))"

definition days_in_month :: "nat \<Rightarrow> nat \<Rightarrow> nat" where
  "days_in_month y m =
     (if m = 2 then (if is_leap y then 29 else 28)
      else if m = 4 \<or> m = 6 \<or> m = 9 \<or> m = 11 then 30 else 31)"

text \<open>\<^verbatim>\<open>_days_before_year\<close>, \<^verbatim>\<open>_days_before_month\<close> and \<^verbatim>\<open>_ymd2ord\<close> of the datetime module.\<close>

definition days_before_year :: "nat \<Rightarrow> int" where
  "days_before_year y =
     (let y1 = int y - 1 in y1 * 365 + y1 div 4 - y1 div 100 + y1 div 400)"

definition days_before_month :: "nat \<Rightarrow> nat \<Rightarrow> int" where
  "days_before_month y m = int (sum_list (map (days_in_month y) [1..<m]))"

definition toordinal :: "datetime \<Rightarrow> int" where
  "toordinal d = days_before_year (year d) + days_before_month (year d) (month d) + int (day d)"

definition seconds_of_day :: "datetime \<Rightarrow> int" where
  "seconds_of_day d = int (second d) + int (minute d) * 60 + int (hour d) * 3600"

text \<open>
  \<^verbatim>\<open>(a - b).days\<close>: the subtraction builds
  \<^verbatim>\<open>timedelta(days1 - days2, secs1 - secs2, us1 - us2)\<close>, whose constructor carries whole
  days out of the seconds with \<^verbatim>\<open>divmod\<close> (rounding down) and keeps
  \<^verbatim>\<open>0 <= seconds < 86400\<close>. Parsed timestamps have no microseconds.
\<close>

definition timedelta_days :: "datetime \<Rightarrow> datetime \<Rightarrow> int" where
  "timedelta_days a b =
     (toordinal a - toordinal b) + (seconds_of_day a - seconds_of_day b) div 86400"

subsection \<open>Parsing the wire format\<close>

text \<open>
  \<^verbatim>\<open>datetime.strptime(s, '%Y-%m-%dT%H:%M:%SZ')\<close>. CPython turns the format into the
  regular expression
  \<^verbatim>\<open>(\d\d\d\d)-(1[0-2]|0[1-9]|[1-9])-(3[0-1]|[1-2]\d|0[1-9]|[1-9]| [1-9])T(2[0-3]|[0-1]\d|\d):([0-5]\d|\d):(6[0-1]|[0-5]\d|\d)Z\<close>,
  matched case-insensitively at the start of the string; text left over after the match,
  a date that does not exist and a second above 59 all raise \<^verbatim>\<open>ValueError\<close>. No field
  can hold its separator, so each field is the text before the next separator. Strings
  are byte lists here: the digits are the ASCII digits.
\<close>

definition is_digit :: "char \<Rightarrow> bool" where
  "is_digit c = (c \<in> set ''0123456789'')"

definition digit_val :: "char \<Rightarrow> nat" where
  "digit_val c = of_char c - 48"

definition digits_val :: "string \<Rightarrow> nat" where
  "digits_val s = foldl (\<lambda>n c. 10 * n + digit_val c) 0 s"

fun split_at :: "(char \<Rightarrow> bool) \<Rightarrow> string \<Rightarrow> (string \<times> string) option" where
  "split_at p [] = None"
| "split_at p (c # cs) =
     (if p c then Some ([], cs)
      else (case split_at p cs of None \<Rightarrow> None | Some (a, b) \<Rightarrow> Some (c # a, b)))"

definition year_field :: "string \<Rightarrow> nat option" where
  "year_field s = (if length s = 4 \<and> list_all is_digit s then Some (digits_val s) else None)"

text \<open>One or two digits with a value from \<open>lo\<close> to \<open>hi\<close>: the shape of the five short fields.\<close>

definition num_field :: "nat \<Rightarrow> nat \<Rightarrow> string \<Rightarrow> nat option" where
  "num_field lo hi s =
     (if (length s = 1 \<or> length s = 2) \<and> list_all is_digit s
         \<and> lo \<le> digits_val s \<and> digits_val s \<le> hi
      then Some (digits_val s) else None)"

definition day_field :: "string \<Rightarrow> nat option" where
  "day_field s =
     (case s of
        [a, b] \<Rightarrow> (if a = CHR '' '' then num_field 1 9 [b] else num_field 1 31 s)
      | _ \<Rightarrow> num_field 1 31 s)"

text \<open>The six fields, cut at the separators; nothing may follow the final Z.\<close>

definition cut :: "(char \<Rightarrow> bool) \<Rightarrow> string list \<times> string \<Rightarrow> (string list \<times> string) option" where
  "cut p st =
     (case split_at p (snd st) of
        None \<Rightarrow> None
      | Some ab \<Rightarrow> Some (fst st @ [fst ab], snd ab))"

definition wire_fields :: "string \<Rightarrow> string list option" where
  "wire_fields s =
     Option.bind (cut (\<lambda>c. c = CHR ''-'') ([], s)) (\<lambda>st1.
     Option.bind (cut (\<lambda>c. c = CHR ''-'') st1) (\<lambda>st2.
     Option.bind (cut (\<lambda>c. c = CHR ''T'' \<or> c = CHR ''t'') st2) (\<lambda>st3.
     Option.bind (cut (\<lambda>c. c = CHR '':'') st3) (\<lambda>st4.
     Option.bind (cut (\<lambda>c. c = CHR '':'') st4) (\<lambda>st5.
     Option.bind (cut (\<lambda>c. c = CHR ''Z'' \<or> c = CHR ''z'') st5) (\<lambda>st6.
     if snd st6 = [] then Some (fst st6) else None))))))"

text \<open>
  The values of the fields, then the checks of the \<^verbatim>\<open>datetime\<close> constructor: the year
  from 1, the day within its month, the second below 60.
\<close>

definition make_datetime :: "nat \<Rightarrow> nat \<Rightarrow> nat \<Rightarrow> nat \<Rightarrow> nat \<Rightarrow> nat \<Rightarrow> datetime option" where
  "make_datetime y m d h mi sec =
     (if y < 1 \<or> days_in_month y m < d \<or> 59 < sec then None
      else Some \<lparr>year = y, month = m, day = d, hour = h, minute = mi, second = sec,
                 microsecond = 0\<rparr>)"

definition strptime_wire :: "string \<Rightarrow> datetime option" where
  "strptime_wire s =
     Option.bind (wire_fields s) (\<lambda>fs.
     Option.bind (year_field (fs ! 0)) (\<lambda>y.
     Option.bind (num_field 1 12 (fs ! 1)) (\<lambda>m.
     Option.bind (day_field (fs ! 2)) (\<lambda>d.
     Option.bind (num_field 0 23 (fs ! 3)) (\<lambda>h.
     Option.bind (num_field 0 59 (fs ! 4)) (\<lambda>mi.
     Option.bind (num_field 0 61 (fs ! 5)) (\<lambda>sec.
     make_datetime y m d h mi sec)))))))"

subsection \<open>Issue records and page responses\<close>

text \<open>
  One record of the listing endpoint, with the keys the program reads. \<open>closed_at\<close> is
  \<open>None\<close> when the key is absent or null (\<^verbatim>\<open>issue.get('closed_at')\<close> gives \<^verbatim>\<open>None\<close> for
  both), \<open>pull_request\<close> says whether the key \<^verbatim>\<open>'pull_request'\<close> is present, \<open>labels\<close> holds
  the \<^verbatim>\<open>name\<close> of each label and \<open>assignees\<close> the \<^verbatim>\<open>login\<close> of each assignee (an absent
  key is the empty list, as \<^verbatim>\<open>issue.get(key, [])\<close> makes it), \<open>user_login\<close> is
  \<^verbatim>\<open>issue['user']['login']\<close>.
\<close>

record raw_issue =
  number :: int
  title :: string
  user_login :: string
  assignees :: "string list"
  labels :: "string list"
  created_at :: string
  closed_at :: "string option"
  html_url :: string
  state :: string
  pull_request :: bool

text \<open>What \<^verbatim>\<open>requests.get\<close> returns: the status and, for a page, the decoded JSON array.\<close>

record response =
  status_code :: nat
  json :: "raw_issue list"

text \<open>
  The service, as the loop sees it: every parameter of the request but \<^verbatim>\<open>page\<close> is the
  same in all requests of a run, so a run is decided by the response to each page number.
\<close>

type_synonym server = "nat \<Rightarrow> response"

subsection \<open>The fetch loop of \<^verbatim>\<open>get_closed_issues\<close>\<close>

text \<open>
  The \<^verbatim>\<open>for issue in page_issues\<close> loop (lines 94 to 108), appending to \<^verbatim>\<open>issues\<close>. An
  empty string is falsy, so \<^verbatim>\<open>if not closed_at: continue\<close> skips it like \<^verbatim>\<open>None\<close>;
  \<^verbatim>\<open>strptime\<close> raises on any other string that is not in the format.
\<close>

fun filter_page :: "datetime \<Rightarrow> datetime option \<Rightarrow> raw_issue list \<Rightarrow> raw_issue list
    \<Rightarrow> py_error + raw_issue list" where
  "filter_page since_date until_date [] issues = Inr issues"
| "filter_page since_date until_date (issue # rest) issues =
     (if pull_request issue then filter_page since_date until_date rest issues
      else (case closed_at issue of
        None \<Rightarrow> filter_page since_date until_date rest issues
      | Some s \<Rightarrow>
          if s = [] then filter_page since_date until_date rest issues
          else (case strptime_wire s of
            None \<Rightarrow> Inl ValueError
          | Some closed_date \<Rightarrow>
              if dt_le since_date closed_date then
                (if until_date = None \<or> dt_le closed_date (the until_date)
                 then filter_page since_date until_date rest (issues @ [issue])
                 else filter_page since_date until_date rest issues)
              else filter_page since_date until_date rest issues)))"

text \<open>
  Lines 113 to 118: whether the last record of the page closed before \<^verbatim>\<open>since_date\<close>. The
  record is read whether or not it is a pull request.
\<close>

definition last_is_older :: "datetime \<Rightarrow> raw_issue list \<Rightarrow> py_error + bool" where
  "last_is_older since_date page_issues =
     (if page_issues = [] then Inr False
      else (case closed_at (last page_issues) of
        None \<Rightarrow> Inr False
      | Some s \<Rightarrow>
          if s = [] then Inr False
          else (case strptime_wire s of
            None \<Rightarrow> Inl ValueError
          | Some last_date \<Rightarrow> Inr (dt_lt last_date since_date))))"

text \<open>
  The variables of the loop, and the page numbers requested so far, in order: the trace
  of the \<^verbatim>\<open>requests.get\<close> calls.
\<close>

record fetch_state =
  issues :: "raw_issue list"
  page :: nat
  requests :: "nat list"

text \<open>How one pass through the body of \<^verbatim>\<open>while True\<close> ends.\<close>

datatype step = Break fetch_state | Raise py_error fetch_state | Next fetch_state

definition fetch_body :: "server \<Rightarrow> datetime \<Rightarrow> datetime option \<Rightarrow> fetch_state \<Rightarrow> step" where
  "fetch_body srv since_date until_date st =
     (let response = srv (page st);
          st1 = st\<lparr>requests := requests st @ [page st]\<rparr>
      in if status_code response \<noteq> 200 then Break st1
         else let page_issues = json response
           in if page_issues = [] then Break st1
              else (case filter_page since_date until_date page_issues (issues st1) of
                Inl e \<Rightarrow> Raise e st1
              | Inr issues' \<Rightarrow>
                  let st2 = st1\<lparr>issues := issues', page := page st1 + 1\<rparr>
                  in (case last_is_older since_date page_issues of
                       Inl e \<Rightarrow> Raise e st2
                     | Inr older \<Rightarrow> if older then Break st2 else Next st2)))"

text \<open>
  What a run gives: the returned list or the exception that left the function, and the
  requests it made.
\<close>

record fetch_result =
  outcome :: "py_error + raw_issue list"
  requested :: "nat list"

text \<open>The loop may go on for ever (a service that always has one more page): \<open>None\<close>.\<close>

partial_function (option) fetch_loop ::
    "server \<Rightarrow> datetime \<Rightarrow> datetime option \<Rightarrow> fetch_state \<Rightarrow> fetch_result option" where
  "fetch_loop srv since_date until_date st =
     (case fetch_body srv since_date until_date st of
        Break st' \<Rightarrow> Some \<lparr>outcome = Inr (issues st'), requested = requests st'\<rparr>
      | Raise e st' \<Rightarrow> Some \<lparr>outcome = Inl e, requested = requests st'\<rparr>
      | Next st' \<Rightarrow> fetch_loop srv since_date until_date st')"

definition get_closed_issues :: "server \<Rightarrow> datetime \<Rightarrow> datetime option \<Rightarrow> fetch_result option" where
  "get_closed_issues srv since_date until_date =
     fetch_loop srv since_date until_date \<lparr>issues = [], page = 1, requests = []\<rparr>"

declare fetch_loop.simps [code]

subsection \<open>Counters\<close>

text \<open>
  \<^verbatim>\<open>defaultdict(int)\<close> and \<^verbatim>\<open>Counter\<close>: the keys in insertion order with their counts.
  \<^verbatim>\<open>d[k] += 1\<close> adds one to the count of a key that is there and appends a new key with
  count one; a key that is not there reads as zero.
\<close>

type_synonym 'k counter = "('k \<times> nat) list"

fun incr :: "'k \<Rightarrow> 'k counter \<Rightarrow> 'k counter" where
  "incr k [] = [(k, 1)]"
| "incr k ((k', n) # m) = (if k' = k then (k', n + 1) # m else (k', n) # incr k m)"

fun count_of :: "'k counter \<Rightarrow> 'k \<Rightarrow> nat" where
  "count_of [] k = 0"
| "count_of ((k', n) # m) k = (if k' = k then n else count_of m k)"

definition sum_values :: "'k counter \<Rightarrow> nat" where
  "sum_values m = sum_list (map snd m)"

subsection \<open>Period keys\<close>

definition digit_char :: "nat \<Rightarrow> char" where
  "digit_char n = char_of (48 + n mod 10)"

definition pad2 :: "nat \<Rightarrow> string" where
  "pad2 n = [digit_char (n div 10), digit_char n]"

definition pad4 :: "nat \<Rightarrow> string" where
  "pad4 n = [digit_char (n div 1000), digit_char (n div 100), digit_char (n div 10), digit_char n]"

text \<open>
  \<^verbatim>\<open>strftime('%Y-%m')\<close>, with the year on four digits (what the C library prints for the
  years from 1000 on).
\<close>

definition month_key :: "datetime \<Rightarrow> string" where
  "month_key d = pad4 (year d) @ ''-'' @ pad2 (month d)"

text \<open>
  \<^verbatim>\<open>%U\<close>: the week of the year, weeks starting on Sunday, the days before the first
  Sunday in week 0. Ordinal 1 is a Monday, so the ordinal modulo 7 is the day of the
  week counted from Sunday.
\<close>

definition week_of_year :: "datetime \<Rightarrow> nat" where
  "week_of_year d =
     (let yday = toordinal d - (days_before_year (year d) + 1);
          wday = toordinal d mod 7
      in nat ((yday + 7 - wday) div 7))"

definition week_key :: "datetime \<Rightarrow> string" where
  "week_key d = pad4 (year d) @ ''-W'' @ pad2 (week_of_year d)"

subsection \<open>Floats\<close>

text \<open>
  A float is modelled by its value, a rational. \<open>to_double\<close> rounds a rational to the
  nearest binary64 number, ties to the even mantissa (the quotients of the program are far
  from the overflow threshold): 53 bits from the leading one, and never finer than
  \<open>2^-1074\<close>. Dividing two ints with \<^verbatim>\<open>/\<close> gives the correctly rounded quotient, and
  \<^verbatim>\<open>round(x, 2)\<close> rounds the exact value of \<open>x\<close> to two decimals, ties to even, and returns
  the double nearest to that decimal.
\<close>

fun ilog2 :: "nat \<Rightarrow> nat" where
  "ilog2 n = (if n < 2 then 0 else Suc (ilog2 (n div 2)))"

declare ilog2.simps [simp del]

definition floor_log2 :: "rat \<Rightarrow> int" where
  "floor_log2 q =
     (let (a, b) = quotient_of q;
          e = int (ilog2 (nat a)) - int (ilog2 (nat b))
      in if power_int 2 e \<le> q then e else e - 1)"

definition round_half_even :: "rat \<Rightarrow> int" where
  "round_half_even q =
     (let f = \<lfloor>q\<rfloor>; r = q - of_int f
      in if r < 1 / 2 then f else if 1 / 2 < r then f + 1
         else if even f then f else f + 1)"

definition to_double :: "rat \<Rightarrow> rat" where
  "to_double q =
     (if q = 0 then 0
      else let e = max (floor_log2 \<bar>q\<bar>) (- 1022);
               ulp = power_int 2 (e - 52)
           in of_int (round_half_even (q / ulp)) * ulp)"

definition py_truediv :: "int \<Rightarrow> int \<Rightarrow> rat" where
  "py_truediv a b = to_double (of_int a / of_int b)"

definition py_round2 :: "rat \<Rightarrow> rat" where
  "py_round2 x = to_double (of_int (round_half_even (x * 100)) / 100)"

datatype pynum = PyInt int | PyFloat rat

subsection \<open>The aggregation of \<^verbatim>\<open>analyze_issues\<close>\<close>

record issue_detail =
  d_number :: int
  d_title :: string
  d_author :: string
  d_assignees :: "string list"
  d_labels :: "string list"
  d_created_at :: string
  d_closed_at :: string
  d_days_to_close :: int
  d_url :: string
  d_state :: string

record analysis =
  total_count :: nat
  by_label :: "string counter"
  by_assignee :: "string counter"
  by_author :: "string counter"
  by_month :: "string counter"
  by_week :: "string counter"
  labels_combinations :: "string list counter"
  avg_days_to_close :: pynum
  issues_detail :: "issue_detail list"

text \<open>
  Lines 148 and 149: both timestamps are parsed, \<^verbatim>\<open>created_at\<close> first. \<^verbatim>\<open>strptime\<close> raises
  \<^verbatim>\<open>TypeError\<close> on \<^verbatim>\<open>None\<close> and \<^verbatim>\<open>ValueError\<close> on a string that is not in the format.
\<close>

definition parse_times :: "raw_issue \<Rightarrow> py_error + (datetime \<times> datetime)" where
  "parse_times issue =
     (case strptime_wire (created_at issue) of
        None \<Rightarrow> Inl ValueError
      | Some created_dt \<Rightarrow>
          (case closed_at issue of
             None \<Rightarrow> Inl TypeError
           | Some s \<Rightarrow>
               (case strptime_wire s of
                  None \<Rightarrow> Inl ValueError
                | Some closed_dt \<Rightarrow> Inr (created_dt, closed_dt))))"

text \<open>Lines 182 to 193: the summary record appended to \<^verbatim>\<open>issues_detail\<close>.\<close>

definition issue_summary :: "raw_issue \<Rightarrow> int \<Rightarrow> issue_detail" where
  "issue_summary issue days_to_close =
     \<lparr>d_number = number issue, d_title = title issue, d_author = user_login issue,
      d_assignees = assignees issue, d_labels = labels issue,
      d_created_at = created_at issue, d_closed_at = the (closed_at issue),
      d_days_to_close = days_to_close, d_url = html_url issue, d_state = state issue\<rparr>"

text \<open>
  Lines 150 to 193: the rest of the loop body, on the parsed timestamps; the second
  component is \<^verbatim>\<open>total_days\<close>.
\<close>

definition count_issue :: "raw_issue \<Rightarrow> datetime \<Rightarrow> datetime \<Rightarrow> analysis \<times> int \<Rightarrow> analysis \<times> int" where
  "count_issue issue created_dt closed_dt acc =
     (let a = fst acc;
          days_to_close = timedelta_days closed_dt created_dt;
          total_days = snd acc + days_to_close;
          issue_labels = labels issue
      in (a\<lparr>by_month := incr (month_key closed_dt) (by_month a),
            by_week := incr (week_key closed_dt) (by_week a),
            by_label := fold incr issue_labels (by_label a),
            labels_combinations :=
              (if issue_labels \<noteq> [] then incr (sort issue_labels) (labels_combinations a)
               else labels_combinations a),
            by_assignee :=
              (if assignees issue \<noteq> [] then fold incr (assignees issue) (by_assignee a)
               else incr ''unassigned'' (by_assignee a)),
            by_author := incr (user_login issue) (by_author a),
            issues_detail := issues_detail a @ [issue_summary issue days_to_close]\<rparr>,
          total_days))"

fun analyze_loop :: "raw_issue list \<Rightarrow> analysis \<times> int \<Rightarrow> py_error + (analysis \<times> int)" where
  "analyze_loop [] acc = Inr acc"
| "analyze_loop (issue # rest) acc =
     (case parse_times issue of
        Inl e \<Rightarrow> Inl e
      | Inr (created_dt, closed_dt) \<Rightarrow> analyze_loop rest (count_issue issue created_dt closed_dt acc))"

definition init_analysis :: "raw_issue list \<Rightarrow> analysis" where
  "init_analysis issue_list =
     \<lparr>total_count = length issue_list, by_label = [], by_assignee = [], by_author = [],
      by_month = [], by_week = [], labels_combinations = [],
      avg_days_to_close = PyInt 0, issues_detail = []\<rparr>"

definition analyze_issues :: "raw_issue list \<Rightarrow> py_error + analysis" where
  "analyze_issues issue_list =
     (case analyze_loop issue_list (init_analysis issue_list, 0) of
        Inl e \<Rightarrow> Inl e
      | Inr (a, total_days) \<Rightarrow>
          if length issue_list > 0
          then Inr (a\<lparr>avg_days_to_close :=
                 PyFloat (py_round2 (py_truediv total_days (int (length issue_list))))\<rparr>)
          else Inr a)"

subsection \<open>The exports\<close>

text \<open>\<^verbatim>\<open>sep.join(xs)\<close> on strings.\<close>

fun join :: "string \<Rightarrow> string list \<Rightarrow> string" where
  "join sep [] = []"
| "join sep [x] = x"
| "join sep (x # y # ys) = x @ sep @ join sep (y # ys)"

text \<open>
  \<^verbatim>\<open>_export_csv_report\<close>, lines 278 to 283: the rows handed to \<^verbatim>\<open>writer.writerow\<close>, in
  order, under the ten column names. The file name and the bytes the \<^verbatim>\<open>csv\<close> module
  writes for a row are outside the model.
\<close>

record csv_row =
  c_number :: int
  c_title :: string
  c_author :: string
  c_assignees :: string
  c_labels :: string
  c_created_at :: string
  c_closed_at :: string
  c_days_to_close :: int
  c_url :: string
  c_state :: string

definition csv_row_of :: "issue_detail \<Rightarrow> csv_row" where
  "csv_row_of issue =
     \<lparr>c_number = d_number issue, c_title = d_title issue, c_author = d_author issue,
      c_assignees = join ''; '' (d_assignees issue),
      c_labels = join ''; '' (d_labels issue),
      c_created_at = d_created_at issue, c_closed_at = d_closed_at issue,
      c_days_to_close = d_days_to_close issue, c_url = d_url issue,
      c_state = d_state issue\<rparr>"

definition export_csv_report :: "analysis \<Rightarrow> csv_row list" where
  "export_csv_report a = map csv_row_of (issues_detail a)"

text \<open>
  \<^verbatim>\<open>_export_json_report\<close>: the document handed to \<^verbatim>\<open>json.dump\<close>, without the generation
  time. \<^verbatim>\<open>json.dump\<close> accepts a dictionary key only if it is a string, a number, a boolean
  or \<^verbatim>\<open>None\<close>, and raises \<^verbatim>\<open>TypeError\<close> on any other key: the keys of
  \<^verbatim>\<open>labels_combinations\<close> are tuples, so the call raises as soon as that dictionary has an
  entry, which is before the \<^verbatim>\<open>issues\<close> section is written.
\<close>

record json_report =
  repository :: string
  total_issues :: nat
  j_avg_days_to_close :: pynum
  j_by_label :: "string counter"
  j_by_assignee :: "string counter"
  j_by_author :: "string counter"
  j_by_month :: "string counter"
  j_by_week :: "string counter"
  j_labels_combinations :: "string list counter"
  j_issues :: "issue_detail list"

definition export_json_report :: "string \<Rightarrow> string \<Rightarrow> analysis \<Rightarrow> py_error + json_report" where
  "export_json_report owner repo a =
     (let report_data =
        \<lparr>repository = owner @ ''/'' @ repo, total_issues = total_count a,
         j_avg_days_to_close = avg_days_to_close a,
         j_by_label = by_label a, j_by_assignee = by_assignee a,
         j_by_author = by_author a, j_by_month = by_month a, j_by_week = by_week a,
         j_labels_combinations = labels_combinations a,
         j_issues = issues_detail a\<rparr>
      in if j_labels_combinations report_data \<noteq> [] then Inl TypeError
         else Inr report_data)"

subsection \<open>Notions used in the statements\<close>

text \<open>The state a pass through the loop body ends in.\<close>

fun step_state :: "step \<Rightarrow> fetch_state" where
  "step_state (Break st) = st"
| "step_state (Raise e st) = st"
| "step_state (Next st) = st"

text \<open>A closing timestamp that \<^verbatim>\<open>strptime\<close> refuses: a non-empty string not in the format.\<close>

definition malformed :: "raw_issue \<Rightarrow> bool" where
  "malformed x = (case closed_at x of None \<Rightarrow> False | Some s \<Rightarrow> s \<noteq> [] \<and> strptime_wire s = None)"

text \<open>No closing timestamp: the key is absent, null or the empty string.\<close>

definition no_closing_timestamp :: "raw_issue \<Rightarrow> bool" where
  "no_closing_timestamp x = (closed_at x = None \<or> closed_at x = Some [])"

text \<open>
  The records the filter keeps: not a pull request, closed, and closed within the
  bounds.
\<close>

definition accepts :: "datetime \<Rightarrow> datetime option \<Rightarrow> raw_issue \<Rightarrow> bool" where
  "accepts since_date until_date x =
     (\<not> pull_request x \<and>
      (case closed_at x of
         None \<Rightarrow> False
       | Some s \<Rightarrow> s \<noteq> [] \<and>
           (case strptime_wire s of
              None \<Rightarrow> False
            | Some d \<Rightarrow> dt_le since_date d \<and>
                (case until_date of None \<Rightarrow> True | Some u \<Rightarrow> dt_le d u))))"

text \<open>No record of the page makes the filter loop raise.\<close>

definition filter_parses :: "raw_issue list \<Rightarrow> bool" where
  "filter_parses xs = list_all (\<lambda>x. pull_request x \<or> \<not> malformed x) xs"

text \<open>
  A response after which the loop asks for the next page: a success with a non-empty
  page, no timestamp that raises, and a last record that did not close before
  \<^verbatim>\<open>since_date\<close>.
\<close>

definition continues :: "datetime \<Rightarrow> response \<Rightarrow> bool" where
  "continues since_date r =
     (status_code r = 200 \<and> json r \<noteq> [] \<and> filter_parses (json r)
      \<and> last_is_older since_date (json r) = Inr False)"

text \<open>The state after a page on which no timestamp raises.\<close>

definition after_page :: "server \<Rightarrow> datetime \<Rightarrow> datetime option \<Rightarrow> fetch_state \<Rightarrow> fetch_state" where
  "after_page srv since_date until_date st =
     \<lparr>issues = issues st @ filter (accepts since_date until_date) (json (srv (page st))),
      page = page st + 1,
      requests = requests st @ [page st]\<rparr>"

text \<open>The state after a request that brought no page.\<close>

definition after_request :: "fetch_state \<Rightarrow> fetch_state" where
  "after_request st = \<lparr>issues = issues st, page = page st, requests = requests st @ [page st]\<rparr>"

text \<open>A record of one of the pages that the listed requests brought.\<close>

definition from_fetched_page :: "server \<Rightarrow> nat list \<Rightarrow> raw_issue \<Rightarrow> bool" where
  "from_fetched_page srv reqs i =
     (\<exists>p \<in> set reqs. status_code (srv p) = 200 \<and> i \<in> set (json (srv p)))"

text \<open>The issues accepted from the pages \<open>lo\<close> to \<open>hi - 1\<close>, in order.\<close>

definition accepted_from :: "server \<Rightarrow> datetime \<Rightarrow> datetime option \<Rightarrow> nat \<Rightarrow> nat \<Rightarrow> raw_issue list" where
  "accepted_from srv since_date until_date lo hi =
     concat (map (\<lambda>p. filter (accepts since_date until_date) (json (srv p))) [lo..<hi])"

text \<open>Both timestamps of an issue parse, and their values.\<close>

definition well_timed :: "raw_issue \<Rightarrow> bool" where
  "well_timed issue =
     (strptime_wire (created_at issue) \<noteq> None \<and>
      (case closed_at issue of None \<Rightarrow> False | Some s \<Rightarrow> strptime_wire s \<noteq> None))"

definition created_of :: "raw_issue \<Rightarrow> datetime" where
  "created_of issue = the (strptime_wire (created_at issue))"

definition closed_of :: "raw_issue \<Rightarrow> datetime" where
  "closed_of issue = the (strptime_wire (the (closed_at issue)))"

text \<open>
  The time from creation to closure in seconds, and its whole days, truncated (towards
  zero).
\<close>

definition seconds_to_close :: "raw_issue \<Rightarrow> int" where
  "seconds_to_close issue =
     (toordinal (closed_of issue) - toordinal (created_of issue)) * 86400
     + (seconds_of_day (closed_of issue) - seconds_of_day (created_of issue))"

definition whole_days :: "int \<Rightarrow> int" where
  "whole_days secs = sgn secs * (\<bar>secs\<bar> div 86400)"

text \<open>The units one issue adds to the bucket \<open>login\<close> of \<^verbatim>\<open>by_assignee\<close>.\<close>

definition assignee_units :: "raw_issue \<Rightarrow> string \<Rightarrow> nat" where
  "assignee_units issue login =
     (if assignees issue \<noteq> [] then count_list (assignees issue) login
      else if login = ''unassigned'' then 1 else 0)"

text \<open>One pass of the loop of \<^verbatim>\<open>analyze_issues\<close> on an issue whose timestamps parse.\<close>

definition count_step :: "analysis \<times> int \<Rightarrow> raw_issue \<Rightarrow> analysis \<times> int" where
  "count_step acc i = count_issue i (created_of i) (closed_of i) acc"

subsection \<open>Sample data\<close>

definition sample_issue ::
    "int \<Rightarrow> string \<Rightarrow> string list \<Rightarrow> string list \<Rightarrow> string \<Rightarrow> string option \<Rightarrow> raw_issue" where
  "sample_issue n author logins names created_str closed_str =
     \<lparr>number = n, title = ''sample'', user_login = author, assignees = logins,
      labels = names, created_at = created_str, closed_at = closed_str,
      html_url = ''https://example.org/issue'', state = ''closed'', pull_request = False\<rparr>"

definition since_2024 :: datetime where
  "since_2024 = \<lparr>year = 2024, month = 1, day = 1, hour = 0, minute = 0, second = 0,
                  microsecond = 0\<rparr>"

text \<open>Three closed issues: two authors, one issue unassigned, one without labels.\<close>

definition sample_batch :: "raw_issue list" where
  "sample_batch =
     [sample_issue 1 ''alice'' [''bob'', ''carol''] [''ui'', ''bug'']
        ''2024-01-01T00:00:00Z'' (Some ''2024-01-01T23:00:00Z''),
      sample_issue 2 ''bob'' [] [''bug'', ''ui'']
        ''2024-01-02T08:00:00Z'' (Some ''2024-01-10T09:30:00Z''),
      sample_issue 3 ''alice'' [''bob''] []
        ''2024-01-20T12:00:00Z'' (Some ''2024-02-01T12:00:00Z'')]"

text \<open>An issue without labels.\<close>

definition unlabelled_issue :: raw_issue where
  "unlabelled_issue =
     sample_issue 7 ''alice'' [] [] ''2024-01-02T08:00:00Z'' (Some ''2024-01-03T08:00:00Z'')"

text \<open>Records for the pages of the sample services.\<close>

definition issue_jan10 :: raw_issue where
  "issue_jan10 =
     sample_issue 2 ''bob'' [] [''bug'', ''ui''] ''2024-01-02T08:00:00Z''
       (Some ''2024-01-10T09:30:00Z'')"

definition issue_jan01 :: raw_issue where
  "issue_jan01 =
     sample_issue 1 ''alice'' [''bob'', ''carol''] [''ui'', ''bug''] ''2024-01-01T00:00:00Z''
       (Some ''2024-01-01T23:00:00Z'')"

text \<open>Closed a month before \<open>since_2024\<close>.\<close>

definition old_issue :: raw_issue where
  "old_issue =
     sample_issue 10 ''dave'' [] [] ''2023-11-01T00:00:00Z'' (Some ''2023-12-01T00:00:00Z'')"

text \<open>Still open: no closing timestamp.\<close>

definition open_issue :: raw_issue where
  "open_issue =
     (sample_issue 11 ''dave'' [] [] ''2024-01-05T00:00:00Z'' None)\<lparr>state := ''open''\<rparr>"

text \<open>A closing timestamp that is not in the wire format.\<close>

definition garbled_issue :: raw_issue where
  "garbled_issue =
     sample_issue 12 ''dave'' [] [] ''2024-01-05T00:00:00Z'' (Some ''not-a-date'')"

text \<open>A record that says it is open and carries a closing timestamp.\<close>

definition reopened_issue :: raw_issue where
  "reopened_issue =
     (sample_issue 13 ''dave'' [] [] ''2024-01-02T08:00:00Z''
        (Some ''2024-01-03T08:00:00Z''))\<lparr>state := ''open''\<rparr>"

text \<open>An issue with two assignees and one label, and the same issue without the label.\<close>

definition two_assignee_issue :: raw_issue where
  "two_assignee_issue =
     sample_issue 21 ''carol'' [''alice'', ''bob''] [''bug''] ''2024-01-02T08:00:00Z''
       (Some ''2024-01-03T08:00:00Z'')"

definition two_assignee_unlabelled :: raw_issue where
  "two_assignee_unlabelled =
     sample_issue 22 ''carol'' [''alice'', ''bob''] [] ''2024-01-02T08:00:00Z''
       (Some ''2024-01-03T08:00:00Z'')"

text \<open>A record whose closing timestamp is one hour before its creation.\<close>

definition backdated_issue :: raw_issue where
  "backdated_issue =
     sample_issue 30 ''erin'' [] [] ''2024-01-02T00:00:00Z'' (Some ''2024-01-01T23:00:00Z'')"

text \<open>A first page with a malformed closing timestamp that ends with an open record.\<close>

definition garbled_stale_server :: server where
  "garbled_stale_server p =
     (if p = 1 then \<lparr>status_code = 200, json = [garbled_issue, open_issue]\<rparr>
      else \<lparr>status_code = 200, json = []\<rparr>)"

text \<open>One page, then a server error.\<close>

definition failing_server :: server where
  "failing_server p =
     (if p = 1 then \<lparr>status_code = 200, json = [issue_jan10, open_issue]\<rparr>
      else \<lparr>status_code = 500, json = []\<rparr>)"

text \<open>The second page ends with a record closed before \<open>since_2024\<close>; more pages follow.\<close>

definition paged_server :: server where
  "paged_server p =
     (if p = 1 then \<lparr>status_code = 200, json = [issue_jan10, unlabelled_issue]\<rparr>
      else if p = 2 then \<lparr>status_code = 200, json = [issue_jan01, old_issue]\<rparr>
      else \<lparr>status_code = 200, json = [old_issue]\<rparr>)"

text \<open>A first page of old records that ends with an open one, then nothing.\<close>

definition stale_server :: server where
  "stale_server p =
     (if p = 1 then \<lparr>status_code = 200, json = [old_issue, open_issue]\<rparr>
      else \<lparr>status_code = 200, json = []\<rparr>)"

text \<open>A page with a malformed closing timestamp between two good records.\<close>

definition garbled_server :: server where
  "garbled_server p =
     (if p = 1 then \<lparr>status_code = 200, json = [issue_jan10, garbled_issue, unlabelled_issue]\<rparr>
      else \<lparr>status_code = 200, json = []\<rparr>)"

text \<open>A page with a record whose state is not closed, then nothing.\<close>

definition reopened_server :: server where
  "reopened_server p =
     (if p = 1 then \<lparr>status_code = 200, json = [reopened_issue]\<rparr>
      else \<lparr>status_code = 200, json = []\<rparr>)"

section \<open>Properties of the aggregation\<close>

subsection \<open>Counters\<close>


lemma sum_values_incr: "sum_values (incr k m) = sum_values m + 1"
  by (induction m) (auto simp: sum_values_def)

lemma count_of_incr: "count_of (incr k m) k' = count_of m k' + (if k' = k then 1 else 0)"
  by (induction m) auto

lemma sum_values_fold_incr: "sum_values (fold incr ks m) = sum_values m + length ks"
  by (induction ks arbitrary: m) (simp_all add: sum_values_incr)

lemma count_of_fold_incr: "count_of (fold incr ks m) k = count_of m k + count_list ks k"
  by (induction ks arbitrary: m) (simp_all add: count_of_incr)

lemma parse_times_well_timed:
  "well_timed i \<Longrightarrow> parse_times i = Inr (created_of i, closed_of i)"
  by (auto simp: well_timed_def parse_times_def created_of_def closed_of_def split: option.splits)

lemma parse_times_Inr_iff: "(\<exists>t. parse_times i = Inr t) \<longleftrightarrow> well_timed i"
  by (auto simp: well_timed_def parse_times_def split: option.splits)

lemma analyze_loop_well_timed:
  "list_all well_timed xs \<Longrightarrow> analyze_loop xs acc = Inr (foldl count_step acc xs)"
  by (induction xs arbitrary: acc) (simp_all add: parse_times_well_timed count_step_def)

lemma analyze_loop_Inr_well_timed:
  "analyze_loop xs acc = Inr r \<Longrightarrow> list_all well_timed xs"
proof (induction xs arbitrary: acc)
  case Nil
  show ?case by simp
next
  case (Cons x xs)
  from Cons.prems obtain t where t: "parse_times x = Inr t"
    by (cases "parse_times x") simp_all
  then have "well_timed x" using parse_times_Inr_iff by blast
  moreover from Cons.prems t have "analyze_loop xs (count_issue x (fst t) (snd t) acc) = Inr r"
    by (cases t) simp
  then have "list_all well_timed xs" by (rule Cons.IH)
  ultimately show ?case by simp
qed

lemma run_total_count: "total_count (fst (foldl count_step acc xs)) = total_count (fst acc)"
  by (induction xs arbitrary: acc) (simp_all add: count_step_def count_issue_def Let_def)

lemma run_by_author:
  "by_author (fst (foldl count_step acc xs)) = fold incr (map user_login xs) (by_author (fst acc))"
  by (induction xs arbitrary: acc) (simp_all add: count_step_def count_issue_def Let_def)

lemma run_by_month:
  "by_month (fst (foldl count_step acc xs)) = fold incr (map (\<lambda>i. month_key (closed_of i)) xs) (by_month (fst acc))"
  by (induction xs arbitrary: acc) (simp_all add: count_step_def count_issue_def Let_def)

lemma run_by_week:
  "by_week (fst (foldl count_step acc xs)) = fold incr (map (\<lambda>i. week_key (closed_of i)) xs) (by_week (fst acc))"
  by (induction xs arbitrary: acc) (simp_all add: count_step_def count_issue_def Let_def)

lemma run_labels_combinations:
  "labels_combinations (fst (foldl count_step acc xs)) =
     fold incr (map (\<lambda>i. sort (labels i)) (filter (\<lambda>i. labels i \<noteq> []) xs)) (labels_combinations (fst acc))"
  by (induction xs arbitrary: acc) (simp_all add: count_step_def count_issue_def Let_def)

lemma run_issues_detail:
  "issues_detail (fst (foldl count_step acc xs)) =
     issues_detail (fst acc) @ map (\<lambda>i. issue_summary i (timedelta_days (closed_of i) (created_of i))) xs"
  by (induction xs arbitrary: acc) (simp_all add: count_step_def count_issue_def Let_def)

lemma run_total_days:
  "snd (foldl count_step acc xs) = snd acc + (\<Sum>i\<leftarrow>xs. timedelta_days (closed_of i) (created_of i))"
  by (induction xs arbitrary: acc) (simp_all add: count_step_def count_issue_def Let_def)

lemma run_by_assignee_sum:
  "sum_values (by_assignee (fst (foldl count_step acc xs))) =
     sum_values (by_assignee (fst acc)) + (\<Sum>i\<leftarrow>xs. if assignees i = [] then 1 else length (assignees i))"
  by (induction xs arbitrary: acc)
     (simp_all add: count_step_def count_issue_def Let_def sum_values_incr sum_values_fold_incr)

lemma run_by_assignee_count:
  "count_of (by_assignee (fst (foldl count_step acc xs))) login =
     count_of (by_assignee (fst acc)) login + (\<Sum>i\<leftarrow>xs. assignee_units i login)"
  by (induction xs arbitrary: acc)
     (simp_all add: count_step_def count_issue_def Let_def count_of_incr count_of_fold_incr assignee_units_def)

lemma count_list_map_filter: "count_list (map f xs) k = length (filter (\<lambda>i. f i = k) xs)"
  by (induction xs) simp_all

lemma analyze_issues_well_timed:
  assumes "list_all well_timed xs"
  shows "analyze_issues xs =
     Inr (if xs = [] then init_analysis xs
          else (fst (foldl count_step (init_analysis xs, 0) xs))
            \<lparr>avg_days_to_close := PyFloat (py_round2 (py_truediv
               (\<Sum>i\<leftarrow>xs. timedelta_days (closed_of i) (created_of i)) (int (length xs))))\<rparr>)"
proof -
  obtain a t where r: "foldl count_step (init_analysis xs, 0) xs = (a, t)"
    by (cases "foldl count_step (init_analysis xs, 0) xs")
  have l: "analyze_loop xs (init_analysis xs, 0) = Inr (a, t)"
    using analyze_loop_well_timed [OF assms] r by simp
  have t: "t = (\<Sum>i\<leftarrow>xs. timedelta_days (closed_of i) (created_of i))"
    using run_total_days [of "(init_analysis xs, 0)" xs] r by simp
  have a: "xs = [] \<Longrightarrow> a = init_analysis xs"
    using r by simp
  show ?thesis
    unfolding analyze_issues_def l using r t a by simp
qed



lemma analyze_issues_returns_iff:
  "(\<exists>a. analyze_issues xs = Inr a) \<longleftrightarrow> list_all well_timed xs"
proof
  assume "\<exists>a. analyze_issues xs = Inr a"
  then obtain a where "analyze_issues xs = Inr a" ..
  then obtain r where "analyze_loop xs (init_analysis xs, 0) = Inr r"
    unfolding analyze_issues_def by (cases "analyze_loop xs (init_analysis xs, 0)") simp_all
  then show "list_all well_timed xs" by (rule analyze_loop_Inr_well_timed)
next
  assume "list_all well_timed xs"
  then show "\<exists>a. analyze_issues xs = Inr a"
    by (simp add: analyze_issues_well_timed)
qed

lemma sum_values_Nil: "sum_values [] = 0"
  by (simp add: sum_values_def)

lemma analyze_issues_fields:
  assumes "list_all well_timed xs"
  shows "\<exists>a. analyze_issues xs = Inr a
    \<and> total_count a = length xs
    \<and> by_author a = fold incr (map user_login xs) []
    \<and> by_month a = fold incr (map (\<lambda>i. month_key (closed_of i)) xs) []
    \<and> by_week a = fold incr (map (\<lambda>i. week_key (closed_of i)) xs) []
    \<and> labels_combinations a =
        fold incr (map (\<lambda>i. sort (labels i)) (filter (\<lambda>i. labels i \<noteq> []) xs)) []
    \<and> issues_detail a =
        map (\<lambda>i. issue_summary i (timedelta_days (closed_of i) (created_of i))) xs
    \<and> sum_values (by_assignee a) =
        (\<Sum>i\<leftarrow>xs. if assignees i = [] then 1 else length (assignees i))
    \<and> (\<forall>login. count_of (by_assignee a) login = (\<Sum>i\<leftarrow>xs. assignee_units i login))
    \<and> avg_days_to_close a =
        (if xs = [] then PyInt 0
         else PyFloat (py_round2 (py_truediv
                (\<Sum>i\<leftarrow>xs. timedelta_days (closed_of i) (created_of i)) (int (length xs)))))"
proof (cases "xs = []")
  case True
  then show ?thesis
    by (simp add: analyze_issues_def init_analysis_def sum_values_def assignee_units_def)
next
  case False
  show ?thesis
    using False
    by (simp add: analyze_issues_well_timed [OF assms] run_total_count run_by_author
        run_by_month run_by_week run_labels_combinations run_issues_detail
        run_by_assignee_sum run_by_assignee_count init_analysis_def sum_values_Nil)
qed


lemma whole_days_nonneg: "0 \<le> x \<Longrightarrow> whole_days x = x div 86400"
  by (cases "x = 0") (simp_all add: whole_days_def)

lemma timedelta_days_floor:
  "timedelta_days (closed_of i) (created_of i) = seconds_to_close i div 86400"
  by (simp add: seconds_to_close_def timedelta_days_def)

subsection \<open>Evaluations on the sample data\<close>

lemma parse_0101_00: "strptime_wire ''2024-01-01T00:00:00Z'' =
  Some \<lparr>year = 2024, month = 1, day = 1, hour = 0, minute = 0, second = 0, microsecond = 0\<rparr>"
  by code_simp
lemma parse_0101_23: "strptime_wire ''2024-01-01T23:00:00Z'' =
  Some \<lparr>year = 2024, month = 1, day = 1, hour = 23, minute = 0, second = 0, microsecond = 0\<rparr>"
  by code_simp
lemma parse_0102_08: "strptime_wire ''2024-01-02T08:00:00Z'' =
  Some \<lparr>year = 2024, month = 1, day = 2, hour = 8, minute = 0, second = 0, microsecond = 0\<rparr>"
  by code_simp
lemma parse_0103_08: "strptime_wire ''2024-01-03T08:00:00Z'' =
  Some \<lparr>year = 2024, month = 1, day = 3, hour = 8, minute = 0, second = 0, microsecond = 0\<rparr>"
  by code_simp
lemma parse_0110_09: "strptime_wire ''2024-01-10T09:30:00Z'' =
  Some \<lparr>year = 2024, month = 1, day = 10, hour = 9, minute = 30, second = 0, microsecond = 0\<rparr>"
  by code_simp
lemma parse_0120_12: "strptime_wire ''2024-01-20T12:00:00Z'' =
  Some \<lparr>year = 2024, month = 1, day = 20, hour = 12, minute = 0, second = 0, microsecond = 0\<rparr>"
  by code_simp
lemma parse_0201_12: "strptime_wire ''2024-02-01T12:00:00Z'' =
  Some \<lparr>year = 2024, month = 2, day = 1, hour = 12, minute = 0, second = 0, microsecond = 0\<rparr>"
  by code_simp
lemmas sample_parses = parse_0101_00 parse_0101_23 parse_0102_08 parse_0103_08 parse_0110_09
  parse_0120_12 parse_0201_12

lemma sample_batch_well_timed: "list_all well_timed sample_batch"
  by (simp add: sample_batch_def sample_issue_def well_timed_def sample_parses)

lemma unlabelled_well_timed: "list_all well_timed [unlabelled_issue]"
  by (simp add: unlabelled_issue_def sample_issue_def well_timed_def sample_parses)

lemma closed_of_sample:
  "closed_of (sample_issue n who logins names c (Some s)) = the (strptime_wire s)"
  "created_of (sample_issue n who logins names c cl) = the (strptime_wire c)"
  by (simp_all add: closed_of_def created_of_def sample_issue_def)

lemma sample_month_keys:
  "month_key (the (strptime_wire ''2024-01-01T23:00:00Z'')) = ''2024-01''"
  "month_key (the (strptime_wire ''2024-01-10T09:30:00Z'')) = ''2024-01''"
  "month_key (the (strptime_wire ''2024-02-01T12:00:00Z'')) = ''2024-02''"
  unfolding sample_parses option.sel by code_simp+

lemma sample_week_keys:
  "week_key (the (strptime_wire ''2024-01-01T23:00:00Z'')) = ''2024-W00''"
  "week_key (the (strptime_wire ''2024-01-10T09:30:00Z'')) = ''2024-W01''"
  "week_key (the (strptime_wire ''2024-02-01T12:00:00Z'')) = ''2024-W04''"
  unfolding sample_parses option.sel by code_simp+

lemma sample_days:
  "timedelta_days (the (strptime_wire ''2024-01-01T23:00:00Z''))
     (the (strptime_wire ''2024-01-01T00:00:00Z'')) = 0"
  "timedelta_days (the (strptime_wire ''2024-01-10T09:30:00Z''))
     (the (strptime_wire ''2024-01-02T08:00:00Z'')) = 8"
  "timedelta_days (the (strptime_wire ''2024-02-01T12:00:00Z''))
     (the (strptime_wire ''2024-01-20T12:00:00Z'')) = 12"
  unfolding sample_parses option.sel by code_simp+

lemma sample_seconds:
  "seconds_to_close (sample_issue 1 ''alice'' [''bob'', ''carol''] [''ui'', ''bug'']
        ''2024-01-01T00:00:00Z'' (Some ''2024-01-01T23:00:00Z'')) = 82800"
  "seconds_to_close (sample_issue 2 ''bob'' [] [''bug'', ''ui'']
        ''2024-01-02T08:00:00Z'' (Some ''2024-01-10T09:30:00Z'')) = 696600"
  "seconds_to_close (sample_issue 3 ''alice'' [''bob''] []
        ''2024-01-20T12:00:00Z'' (Some ''2024-02-01T12:00:00Z'')) = 1036800"
  unfolding seconds_to_close_def closed_of_sample sample_parses option.sel
  by code_simp+

lemma sample_average: "py_round2 (py_truediv 20 3) = to_double (667 / 100)"
  by code_simp

subsection \<open>Label combinations\<close>

text \<open>
  Claim C1, as the code has it. When every timestamp parses, \<^verbatim>\<open>analyze_issues\<close> returns, and
  each issue with at least one label adds one to \<^verbatim>\<open>labels_combinations\<close> under the sorted
  list of its labels. An issue without labels adds nothing (line 165 guards the
  increment): the bucket of the empty combination stays at zero, and the counts sum to
  the number of issues that have a label.
\<close>

theorem label_combinations_counted:
  assumes "list_all well_timed issue_list"
  shows "\<exists>a. analyze_issues issue_list = Inr a
    \<and> (\<forall>combo. count_of (labels_combinations a) combo =
          length (filter (\<lambda>i. labels i \<noteq> [] \<and> sort (labels i) = combo) issue_list))
    \<and> count_of (labels_combinations a) [] = 0
    \<and> sum_values (labels_combinations a) = length (filter (\<lambda>i. labels i \<noteq> []) issue_list)"
proof -
  from analyze_issues_fields [OF assms] obtain a where
    a: "analyze_issues issue_list = Inr a" and
    c: "labels_combinations a =
        fold incr (map (\<lambda>i. sort (labels i)) (filter (\<lambda>i. labels i \<noteq> []) issue_list)) []"
    by blast
  have 1: "count_of (labels_combinations a) combo =
          length (filter (\<lambda>i. labels i \<noteq> [] \<and> sort (labels i) = combo) issue_list)" for combo
    by (simp add: c count_of_fold_incr count_list_map_filter conj_commute)
  have "labels i \<noteq> [] \<Longrightarrow> sort (labels i) \<noteq> []" for i :: raw_issue
    by (metis length_sort length_0_conv)
  then have "filter (\<lambda>i. labels i \<noteq> [] \<and> sort (labels i) = []) issue_list = []"
    by (induction issue_list) auto
  then have 2: "count_of (labels_combinations a) [] = 0"
    by (simp add: 1)
  have 3: "sum_values (labels_combinations a) = length (filter (\<lambda>i. labels i \<noteq> []) issue_list)"
    by (simp add: c sum_values_fold_incr sum_values_Nil)
  from a 1 2 3 show ?thesis by blast
qed

theorem label_combinations_counted_witness:
  "list_all well_timed sample_batch \<and>
   (\<exists>a. analyze_issues sample_batch = Inr a
     \<and> count_of (labels_combinations a) [''bug'', ''ui''] = 2
     \<and> count_of (labels_combinations a) [] = 0
     \<and> sum_values (labels_combinations a) = 2)"
proof -
  have e1: "length (filter (\<lambda>i. labels i \<noteq> [] \<and> sort (labels i) = [''bug'', ''ui'']) sample_batch) = 2"
    by (simp add: sample_batch_def sample_issue_def)
  have e2: "length (filter (\<lambda>i. labels i \<noteq> []) sample_batch) = 2"
    by (simp add: sample_batch_def sample_issue_def)
  from label_combinations_counted [OF sample_batch_well_timed] obtain a where
    a: "analyze_issues sample_batch = Inr a" and
    1: "\<forall>combo. count_of (labels_combinations a) combo =
          length (filter (\<lambda>i. labels i \<noteq> [] \<and> sort (labels i) = combo) sample_batch)" and
    2: "count_of (labels_combinations a) [] = 0" and
    3: "sum_values (labels_combinations a) = length (filter (\<lambda>i. labels i \<noteq> []) sample_batch)"
    by blast
  from 1 e1 have 4: "count_of (labels_combinations a) [''bug'', ''ui''] = 2" by simp
  from 3 e2 have 5: "sum_values (labels_combinations a) = 2" by simp
  from sample_batch_well_timed a 4 2 5 show ?thesis by blast
qed

text \<open>
  Claim C1 as stated fails: for one issue without labels the counter stays empty, so
  the empty bucket is not incremented and the counts sum to 0, not to the length 1 of
  the input.
\<close>

theorem empty_bucket_counterexample:
  "map_sum id labels_combinations (analyze_issues [unlabelled_issue]) = Inr []"
proof -
  from analyze_issues_fields [OF unlabelled_well_timed] obtain a where
    a: "analyze_issues [unlabelled_issue] = Inr a" and
    c: "labels_combinations a =
        fold incr (map (\<lambda>i. sort (labels i)) (filter (\<lambda>i. labels i \<noteq> []) [unlabelled_issue])) []"
    by blast
  have "labels unlabelled_issue = []"
    by (simp add: unlabelled_issue_def sample_issue_def)
  with a c show ?thesis by simp
qed

subsection \<open>Totals, authors and assignees\<close>

text \<open>
  Claim C7. When every timestamp parses, \<^verbatim>\<open>analyze_issues\<close> returns with \<^verbatim>\<open>total_count\<close>
  the length of the input; the counts of \<^verbatim>\<open>by_author\<close> sum to \<^verbatim>\<open>total_count\<close>, the bucket
  of a login holding the number of issues it wrote; an issue adds to \<^verbatim>\<open>by_assignee\<close> one
  unit per assignee, or one unit to \<^verbatim>\<open>unassigned\<close> when it has none, so the counts of
  \<^verbatim>\<open>by_assignee\<close> sum to at least \<^verbatim>\<open>total_count\<close>.
\<close>

theorem aggregation_totals:
  assumes "list_all well_timed issue_list"
  shows "\<exists>a. analyze_issues issue_list = Inr a
    \<and> total_count a = length issue_list
    \<and> sum_values (by_author a) = total_count a
    \<and> (\<forall>login. count_of (by_author a) login =
          length (filter (\<lambda>i. user_login i = login) issue_list))
    \<and> (\<forall>login. count_of (by_assignee a) login = (\<Sum>i\<leftarrow>issue_list. assignee_units i login))
    \<and> sum_values (by_assignee a) =
          (\<Sum>i\<leftarrow>issue_list. if assignees i = [] then 1 else length (assignees i))
    \<and> total_count a \<le> sum_values (by_assignee a)"
proof -
  from analyze_issues_fields [OF assms] obtain a where
    a: "analyze_issues issue_list = Inr a" and
    t: "total_count a = length issue_list" and
    au: "by_author a = fold incr (map user_login issue_list) []" and
    s: "sum_values (by_assignee a) =
        (\<Sum>i\<leftarrow>issue_list. if assignees i = [] then 1 else length (assignees i))" and
    c: "\<forall>login. count_of (by_assignee a) login = (\<Sum>i\<leftarrow>issue_list. assignee_units i login)"
    by blast
  have 1: "sum_values (by_author a) = total_count a"
    by (simp add: au t sum_values_fold_incr sum_values_Nil)
  have 2: "count_of (by_author a) login = length (filter (\<lambda>i. user_login i = login) issue_list)"
    for login
    by (simp add: au count_of_fold_incr count_list_map_filter)
  have "length xs \<le> (\<Sum>i\<leftarrow>xs. if assignees i = [] then 1 else length (assignees i))"
    for xs :: "raw_issue list"
  proof (induction xs)
    case Nil
    show ?case by simp
  next
    case (Cons x xs)
    have "1 \<le> (if assignees x = [] then 1 else length (assignees x))"
      by (cases "assignees x") simp_all
    with Cons show ?case by simp
  qed
  then have 3: "total_count a \<le> sum_values (by_assignee a)"
    by (simp add: s t)
  from a t 1 2 c s 3 show ?thesis by blast
qed

theorem aggregation_totals_witness:
  "list_all well_timed sample_batch \<and>
   (\<exists>a. analyze_issues sample_batch = Inr a
     \<and> total_count a = 3
     \<and> sum_values (by_author a) = 3
     \<and> count_of (by_author a) ''alice'' = 2
     \<and> count_of (by_assignee a) ''bob'' = 2
     \<and> count_of (by_assignee a) ''unassigned'' = 1
     \<and> sum_values (by_assignee a) = 4)"
proof -
  have e0: "length sample_batch = 3" by (simp add: sample_batch_def)
  have e1: "length (filter (\<lambda>i. user_login i = ''alice'') sample_batch) = 2"
    by (simp add: sample_batch_def sample_issue_def)
  have e2: "(\<Sum>i\<leftarrow>sample_batch. assignee_units i ''bob'') = 2"
    by (simp add: sample_batch_def sample_issue_def assignee_units_def)
  have e3: "(\<Sum>i\<leftarrow>sample_batch. assignee_units i ''unassigned'') = 1"
    by (simp add: sample_batch_def sample_issue_def assignee_units_def)
  have e4: "(\<Sum>i\<leftarrow>sample_batch. if assignees i = [] then 1 else length (assignees i)) = 4"
    by (simp add: sample_batch_def sample_issue_def)
  from aggregation_totals [OF sample_batch_well_timed] obtain a where
    a: "analyze_issues sample_batch = Inr a" and
    t: "total_count a = length sample_batch" and
    1: "sum_values (by_author a) = total_count a" and
    2: "\<forall>login. count_of (by_author a) login =
          length (filter (\<lambda>i. user_login i = login) sample_batch)" and
    3: "\<forall>login. count_of (by_assignee a) login = (\<Sum>i\<leftarrow>sample_batch. assignee_units i login)" and
    4: "sum_values (by_assignee a) =
          (\<Sum>i\<leftarrow>sample_batch. if assignees i = [] then 1 else length (assignees i))"
    by blast
  have "total_count a = 3" using t e0 by simp
  moreover have "sum_values (by_author a) = 3" using 1 t e0 by simp
  moreover have "count_of (by_author a) ''alice'' = 2" using 2 e1 by simp
  moreover have "count_of (by_assignee a) ''bob'' = 2" using 3 e2 by simp
  moreover have "count_of (by_assignee a) ''unassigned'' = 1" using 3 e3 by simp
  moreover have "sum_values (by_assignee a) = 4" using 4 e4 by simp
  ultimately show ?thesis using sample_batch_well_timed a by blast
qed

subsection \<open>Period buckets and issue details\<close>

text \<open>
  Claim C10. When every timestamp parses, the counts of \<^verbatim>\<open>by_month\<close> and of \<^verbatim>\<open>by_week\<close>
  both sum to \<^verbatim>\<open>total_count\<close>, the bucket of a key holding the number of issues whose
  closing timestamp has that month (week) key, and \<^verbatim>\<open>issues_detail\<close> has \<^verbatim>\<open>total_count\<close>
  entries: the summary of each input issue, in input order.
\<close>

theorem period_buckets_and_details:
  assumes "list_all well_timed issue_list"
  shows "\<exists>a. analyze_issues issue_list = Inr a
    \<and> sum_values (by_month a) = total_count a
    \<and> total_count a = sum_values (by_week a)
    \<and> (\<forall>k. count_of (by_month a) k =
          length (filter (\<lambda>i. month_key (closed_of i) = k) issue_list))
    \<and> (\<forall>k. count_of (by_week a) k =
          length (filter (\<lambda>i. week_key (closed_of i) = k) issue_list))
    \<and> length (issues_detail a) = total_count a
    \<and> issues_detail a =
          map (\<lambda>i. issue_summary i (timedelta_days (closed_of i) (created_of i))) issue_list"
proof -
  from analyze_issues_fields [OF assms] obtain a where
    a: "analyze_issues issue_list = Inr a" and
    t: "total_count a = length issue_list" and
    m: "by_month a = fold incr (map (\<lambda>i. month_key (closed_of i)) issue_list) []" and
    w: "by_week a = fold incr (map (\<lambda>i. week_key (closed_of i)) issue_list) []" and
    d: "issues_detail a =
          map (\<lambda>i. issue_summary i (timedelta_days (closed_of i) (created_of i))) issue_list"
    by blast
  have 1: "sum_values (by_month a) = total_count a"
    by (simp add: m t sum_values_fold_incr sum_values_Nil)
  have 2: "total_count a = sum_values (by_week a)"
    by (simp add: w t sum_values_fold_incr sum_values_Nil)
  have 3: "count_of (by_month a) k = length (filter (\<lambda>i. month_key (closed_of i) = k) issue_list)"
    for k
    by (simp add: m count_of_fold_incr count_list_map_filter)
  have 4: "count_of (by_week a) k = length (filter (\<lambda>i. week_key (closed_of i) = k) issue_list)"
    for k
    by (simp add: w count_of_fold_incr count_list_map_filter)
  have 5: "length (issues_detail a) = total_count a"
    by (simp add: d t)
  from a 1 2 3 4 5 d show ?thesis by blast
qed

theorem period_buckets_and_details_witness:
  "list_all well_timed sample_batch \<and>
   (\<exists>a. analyze_issues sample_batch = Inr a
     \<and> sum_values (by_month a) = 3 \<and> sum_values (by_week a) = 3
     \<and> count_of (by_month a) ''2024-01'' = 2
     \<and> count_of (by_week a) ''2024-W04'' = 1
     \<and> map d_number (issues_detail a) = [1, 2, 3]
     \<and> map d_days_to_close (issues_detail a) = [0, 8, 12])"
proof -
  have e0: "length sample_batch = 3" by (simp add: sample_batch_def)
  have e1: "length (filter (\<lambda>i. month_key (closed_of i) = ''2024-01'') sample_batch) = 2"
    by (simp add: sample_batch_def closed_of_sample sample_month_keys)
  have e2: "length (filter (\<lambda>i. week_key (closed_of i) = ''2024-W04'') sample_batch) = 1"
    by (simp add: sample_batch_def closed_of_sample sample_week_keys)
  have e3: "map d_number
      (map (\<lambda>i. issue_summary i (timedelta_days (closed_of i) (created_of i))) sample_batch)
      = [1, 2, 3]"
    by (simp add: sample_batch_def issue_summary_def sample_issue_def)
  have e4: "map d_days_to_close
      (map (\<lambda>i. issue_summary i (timedelta_days (closed_of i) (created_of i))) sample_batch)
      = [0, 8, 12]"
    by (simp add: sample_batch_def issue_summary_def closed_of_sample sample_days)
  from period_buckets_and_details [OF sample_batch_well_timed] obtain a where
    r: "analyze_issues sample_batch = Inr a
      \<and> sum_values (by_month a) = total_count a
      \<and> total_count a = sum_values (by_week a)
      \<and> (\<forall>k. count_of (by_month a) k =
            length (filter (\<lambda>i. month_key (closed_of i) = k) sample_batch))
      \<and> (\<forall>k. count_of (by_week a) k =
            length (filter (\<lambda>i. week_key (closed_of i) = k) sample_batch))
      \<and> length (issues_detail a) = total_count a
      \<and> issues_detail a =
            map (\<lambda>i. issue_summary i (timedelta_days (closed_of i) (created_of i))) sample_batch"
    by (rule exE)
  note a = r [THEN conjunct1]
  note 1 = r [THEN conjunct2, THEN conjunct1]
  note 2 = r [THEN conjunct2, THEN conjunct2, THEN conjunct1]
  note 3 = r [THEN conjunct2, THEN conjunct2, THEN conjunct2, THEN conjunct1]
  note 4 = r [THEN conjunct2, THEN conjunct2, THEN conjunct2, THEN conjunct2, THEN conjunct1]
  note 5 = r [THEN conjunct2, THEN conjunct2, THEN conjunct2, THEN conjunct2, THEN conjunct2,
    THEN conjunct1]
  note 6 = r [THEN conjunct2, THEN conjunct2, THEN conjunct2, THEN conjunct2, THEN conjunct2,
    THEN conjunct2]
  have t: "total_count a = 3" using 5 6 e0 by simp
  have "sum_values (by_month a) = 3" using 1 t by simp
  moreover have "sum_values (by_week a) = 3" using 2 t by simp
  moreover have "count_of (by_month a) ''2024-01'' = 2" using 3 e1 by simp
  moreover have "count_of (by_week a) ''2024-W04'' = 1" using 4 e2 by simp
  moreover have "map d_number (issues_detail a) = [1, 2, 3]"
    using 6 e3 by simp
  moreover have "map d_days_to_close (issues_detail a) = [0, 8, 12]"
    using 6 e4 by simp
  ultimately show ?thesis using sample_batch_well_timed a by (intro conjI exI [of _ a])
qed

subsection \<open>The average\<close>

lemma parse_0102_00: "strptime_wire ''2024-01-02T00:00:00Z'' =
  Some \<lparr>year = 2024, month = 1, day = 2, hour = 0, minute = 0, second = 0, microsecond = 0\<rparr>"
  by code_simp

lemma backdated_well_timed: "list_all well_timed [backdated_issue]"
  by (simp add: backdated_issue_def sample_issue_def well_timed_def parse_0102_00 parse_0101_23)

lemma backdated_seconds: "seconds_to_close backdated_issue = - 3600"
  unfolding seconds_to_close_def backdated_issue_def closed_of_sample parse_0102_00
    parse_0101_23 option.sel
  by code_simp

lemma backdated_average: "py_round2 (py_truediv (- 1) 1) = - 1" "py_round2 (py_truediv 0 1) = 0"
  by code_simp+

text \<open>
  Claim C6, as the code has it. When every timestamp parses, \<^verbatim>\<open>avg_days_to_close\<close> is
  \<^verbatim>\<open>round(total / count, 2)\<close> of the sum of the per-issue whole days from creation to
  closure for a non-empty input, and the integer 0 for the empty input. The whole days
  are \<^verbatim>\<open>(closed_at - created_at).days\<close>, which rounds down: for an issue closed at or after
  its creation this is the truncated difference (less than a day, so also 23 hours, is
  0 days); for an issue closed before its creation it is negative and below the
  truncated difference whenever the difference is not a whole number of days.
\<close>

theorem average_days_to_close:
  assumes "list_all well_timed issue_list"
  shows "\<exists>a. analyze_issues issue_list = Inr a
    \<and> avg_days_to_close a =
        (if issue_list = [] then PyInt 0
         else PyFloat (py_round2 (py_truediv
                (\<Sum>i\<leftarrow>issue_list. seconds_to_close i div 86400)
                (int (length issue_list)))))
    \<and> (\<forall>i \<in> set issue_list. 0 \<le> seconds_to_close i \<longrightarrow>
          seconds_to_close i div 86400 = whole_days (seconds_to_close i))
    \<and> (\<forall>i \<in> set issue_list. 0 \<le> seconds_to_close i \<and> seconds_to_close i < 86400 \<longrightarrow>
          seconds_to_close i div 86400 = 0)
    \<and> (\<forall>i \<in> set issue_list. seconds_to_close i < 0 \<longrightarrow> seconds_to_close i div 86400 < 0)"
proof -
  from analyze_issues_fields [OF assms(1)] obtain a where
    a: "analyze_issues issue_list = Inr a" and
    v: "avg_days_to_close a =
        (if issue_list = [] then PyInt 0
         else PyFloat (py_round2 (py_truediv
                (\<Sum>i\<leftarrow>issue_list. timedelta_days (closed_of i) (created_of i))
                (int (length issue_list)))))"
    by blast
  have 1: "avg_days_to_close a =
        (if issue_list = [] then PyInt 0
         else PyFloat (py_round2 (py_truediv
                (\<Sum>i\<leftarrow>issue_list. seconds_to_close i div 86400)
                (int (length issue_list)))))"
    using v by (simp add: timedelta_days_floor)
  have 2: "0 \<le> x \<longrightarrow> x div 86400 = whole_days x" for x :: int
    by (simp add: whole_days_nonneg)
  have 3: "0 \<le> x \<and> x < 86400 \<longrightarrow> x div 86400 = 0" for x :: int
    by simp
  have 4: "x < 0 \<longrightarrow> x div 86400 < 0" for x :: int
    by (simp add: div_neg_pos_less0)
  from a 1 2 3 4 show ?thesis by blast
qed

theorem average_days_to_close_witness:
  "list_all well_timed sample_batch
   \<and> map seconds_to_close sample_batch = [23 * 3600, 696600, 12 * 86400]
   \<and> map (\<lambda>i. whole_days (seconds_to_close i)) sample_batch = [0, 8, 12]
   \<and> (\<exists>a. analyze_issues sample_batch = Inr a
        \<and> avg_days_to_close a = PyFloat (to_double (667 / 100)))"
proof -
  have s: "map seconds_to_close sample_batch = [23 * 3600, 696600, 12 * 86400]"
    by (simp add: sample_batch_def sample_seconds)
  have e1: "map (\<lambda>i. whole_days (seconds_to_close i)) sample_batch = [0, 8, 12]"
    by (simp add: sample_batch_def sample_seconds whole_days_def)
  have e2: "(\<Sum>i\<leftarrow>sample_batch. seconds_to_close i div 86400) = 20"
    by (simp add: sample_batch_def sample_seconds)
  have e3: "int (length sample_batch) = 3" by (simp add: sample_batch_def)
  have e4: "sample_batch \<noteq> []" by (simp add: sample_batch_def)
  from average_days_to_close [OF sample_batch_well_timed] obtain a where
    a: "analyze_issues sample_batch = Inr a" and
    v: "avg_days_to_close a =
        (if sample_batch = [] then PyInt 0
         else PyFloat (py_round2 (py_truediv
                (\<Sum>i\<leftarrow>sample_batch. seconds_to_close i div 86400)
                (int (length sample_batch)))))"
    by blast
  have "avg_days_to_close a = PyFloat (to_double (667 / 100))"
    unfolding v e2 e3 using e4 by (simp add: sample_average)
  with sample_batch_well_timed s e1 a show ?thesis by blast
qed

text \<open>
  Claim C6 as stated fails: for one issue closed an hour before its creation the code
  counts \<open>- 1\<close> days and the average is \<open>- 1\<close>, while the truncated difference is 0 days
  and its rounded mean is 0.
\<close>

theorem negative_duration_counterexample:
  "map_sum id avg_days_to_close (analyze_issues [backdated_issue]) = Inr (PyFloat (- 1))
   \<and> whole_days (seconds_to_close backdated_issue) = 0
   \<and> py_round2 (py_truediv (whole_days (seconds_to_close backdated_issue))
         (int (length [backdated_issue]))) = 0"
proof -
  from analyze_issues_fields [OF backdated_well_timed] obtain a where
    a: "analyze_issues [backdated_issue] = Inr a" and
    v: "avg_days_to_close a =
        (if [backdated_issue] = [] then PyInt 0
         else PyFloat (py_round2 (py_truediv
                (\<Sum>i\<leftarrow>[backdated_issue]. timedelta_days (closed_of i) (created_of i))
                (int (length [backdated_issue])))))"
    by blast
  have d: "timedelta_days (closed_of backdated_issue) (created_of backdated_issue) = - 1"
    by (simp add: timedelta_days_floor backdated_seconds)
  have w: "whole_days (seconds_to_close backdated_issue) = 0"
    by (simp add: backdated_seconds whole_days_def)
  have "avg_days_to_close a = PyFloat (- 1)"
    unfolding v by (simp add: d backdated_average)
  with a w show ?thesis by (simp add: backdated_average)
qed

section \<open>Properties of the fetch loop\<close>

subsection \<open>The filter loop\<close>

lemma filter_page_Cons:
  "filter_page s u (x # xs) acc =
     (if pull_request x \<or> \<not> malformed x
      then filter_page s u xs (if accepts s u x then acc @ [x] else acc)
      else Inl ValueError)"
  by (cases u) (auto simp: malformed_def accepts_def split: option.splits)

lemma filter_page_parses:
  "filter_parses xs \<Longrightarrow>
   filter_page s u xs acc = Inr (acc @ filter (accepts s u) xs)"
proof (induction xs arbitrary: acc)
  case Nil
  show ?case by simp
next
  case (Cons x xs)
  from Cons.prems have p: "filter_parses xs" and x: "pull_request x \<or> \<not> malformed x"
    by (simp_all add: filter_parses_def)
  show ?case
    unfolding filter_page_Cons using x by (simp add: Cons.IH [OF p])
qed

lemma filter_page_raises:
  "\<not> filter_parses xs \<Longrightarrow> filter_page s u xs acc = Inl ValueError"
proof (induction xs arbitrary: acc)
  case Nil
  then show ?case by (simp add: filter_parses_def)
next
  case (Cons x xs)
  show ?case
  proof (cases "pull_request x \<or> \<not> malformed x")
    case True
    with Cons.prems have "\<not> filter_parses xs" by (simp add: filter_parses_def)
    then have ih: "filter_page s u xs acc' = Inl ValueError" for acc'
      by (rule Cons.IH)
    show ?thesis
      unfolding filter_page_Cons by (simp add: ih)
  next
    case False
    then show ?thesis
      unfolding filter_page_Cons by simp
  qed
qed

lemma filter_page_Inr:
  "filter_page s u xs acc = Inr r \<Longrightarrow> filter_parses xs \<and> r = acc @ filter (accepts s u) xs"
  using filter_page_parses [of xs s u acc] filter_page_raises [of xs s u acc]
  by (cases "filter_parses xs") simp_all

lemma filter_page_Inl:
  "filter_page s u xs acc = Inl e \<Longrightarrow> e = ValueError \<and> \<not> filter_parses xs"
  using filter_page_parses [of xs s u acc] filter_page_raises [of xs s u acc]
  by (cases "filter_parses xs") simp_all

lemma filter_page_drop:
  "no_closing_timestamp x \<Longrightarrow>
   filter_page s u (pre @ x # rest) acc = filter_page s u (pre @ rest) acc"
proof (induction pre arbitrary: acc)
  case Nil
  then have "\<not> malformed x" "\<not> accepts s u x"
    by (auto simp: no_closing_timestamp_def malformed_def accepts_def)
  then show ?case
    unfolding append_Nil filter_page_Cons by simp
next
  case (Cons y pre)
  show ?case
    unfolding append_Cons filter_page_Cons by (simp add: Cons.IH [OF Cons.prems])
qed

lemma accepts_window:
  "accepts s u x \<longleftrightarrow>
   \<not> pull_request x \<and>
   (\<exists>str d. closed_at x = Some str \<and> str \<noteq> [] \<and> strptime_wire str = Some d \<and>
      dt_le s d \<and> (\<forall>u'. u = Some u' \<longrightarrow> dt_le d u'))"
  by (auto simp: accepts_def split: option.splits)

subsection \<open>One pass and the whole loop\<close>

lemma after_request_eq: "st\<lparr>requests := requests st @ [page st]\<rparr> = after_request st"
  by (cases st) (simp add: after_request_def)

lemma after_page_eq:
  "st\<lparr>requests := requests st @ [page st],
      issues := issues st @ filter (accepts s u) (json (srv (page st))),
      page := Suc (page st)\<rparr> = after_page srv s u st"
  by (cases st) (simp add: after_page_def)

lemma fetch_body_failure:
  "status_code (srv (page st)) \<noteq> 200 \<Longrightarrow> fetch_body srv s u st = Break (after_request st)"
  by (simp add: fetch_body_def Let_def after_request_eq)

lemma fetch_body_empty:
  "status_code (srv (page st)) = 200 \<Longrightarrow> json (srv (page st)) = [] \<Longrightarrow>
   fetch_body srv s u st = Break (after_request st)"
  by (simp add: fetch_body_def Let_def after_request_eq)

lemma fetch_body_raise_filter:
  "status_code (srv (page st)) = 200 \<Longrightarrow> \<not> filter_parses (json (srv (page st))) \<Longrightarrow>
   fetch_body srv s u st = Raise ValueError (after_request st)"
  by (auto simp: fetch_body_def Let_def filter_page_raises filter_parses_def after_request_eq)

lemma fetch_body_page:
  assumes "status_code (srv (page st)) = 200" and "json (srv (page st)) \<noteq> []"
    and "filter_parses (json (srv (page st)))"
  shows "fetch_body srv s u st =
     (case last_is_older s (json (srv (page st))) of
        Inl e \<Rightarrow> Raise e (after_page srv s u st)
      | Inr older \<Rightarrow> if older then Break (after_page srv s u st)
          else Next (after_page srv s u st))"
  using assms by (simp add: fetch_body_def Let_def filter_page_parses after_page_eq)

lemma fetch_body_continues:
  "continues s (srv (page st)) \<Longrightarrow> fetch_body srv s u st = Next (after_page srv s u st)"
  by (simp add: continues_def fetch_body_page)

lemma fetch_body_Next:
  assumes "fetch_body srv s u st = Next st'"
  shows "continues s (srv (page st))"
proof -
  have 1: "status_code (srv (page st)) = 200"
    using assms fetch_body_failure [of srv st s u] by auto
  have 2: "json (srv (page st)) \<noteq> []"
    using assms 1 fetch_body_empty [of srv st s u] by auto
  have 3: "filter_parses (json (srv (page st)))"
    using assms 1 fetch_body_raise_filter [of srv st s u] by auto
  have 4: "last_is_older s (json (srv (page st))) = Inr False"
    using assms unfolding fetch_body_page [of srv st s u, OF 1 2 3]
    by (auto split: sum.splits if_splits)
  from 1 2 3 4 show ?thesis by (simp add: continues_def)
qed

lemma fetch_body_requests:
  "requests (step_state (fetch_body srv s u st)) = requests st @ [page st]"
  by (auto simp: fetch_body_def Let_def split: sum.splits)

lemma fetch_loop_Break:
  "fetch_body srv s u st = Break st' \<Longrightarrow>
   fetch_loop srv s u st = Some \<lparr>outcome = Inr (issues st'), requested = requests st'\<rparr>"
  by (subst fetch_loop.simps) simp

lemma fetch_loop_Raise:
  "fetch_body srv s u st = Raise e st' \<Longrightarrow>
   fetch_loop srv s u st = Some \<lparr>outcome = Inl e, requested = requests st'\<rparr>"
  by (subst fetch_loop.simps) simp

lemma fetch_loop_Next:
  "fetch_body srv s u st = Next st' \<Longrightarrow> fetch_loop srv s u st = fetch_loop srv s u st'"
  by (subst fetch_loop.simps) simp

lemma accepted_from_empty: "accepted_from srv s u p p = []"
  by (simp add: accepted_from_def)

lemma accepted_from_first:
  "p < q \<Longrightarrow> accepted_from srv s u p q =
     filter (accepts s u) (json (srv p)) @ accepted_from srv s u (Suc p) q"
  by (simp add: accepted_from_def upt_conv_Cons)

lemma fetch_loop_continues:
  "(\<And>q. p \<le> q \<Longrightarrow> q < p + n \<Longrightarrow> continues s (srv q)) \<Longrightarrow>
   fetch_loop srv s u \<lparr>issues = acc, page = p, requests = reqs\<rparr> =
   fetch_loop srv s u
     \<lparr>issues = acc @ accepted_from srv s u p (p + n), page = p + n,
      requests = reqs @ [p..<p + n]\<rparr>"
proof (induction n arbitrary: p acc reqs)
  case 0
  show ?case by (simp add: accepted_from_empty)
next
  case (Suc n)
  let ?st = "\<lparr>issues = acc, page = p, requests = reqs\<rparr>"
  have c: "continues s (srv (page ?st))" using Suc.prems [of p] by simp
  have step: "fetch_loop srv s u ?st = fetch_loop srv s u (after_page srv s u ?st)"
    by (rule fetch_loop_Next) (rule fetch_body_continues [of s srv ?st u, OF c])
  have rest: "\<And>q. Suc p \<le> q \<Longrightarrow> q < Suc p + n \<Longrightarrow> continues s (srv q)"
    by (rule Suc.prems) simp_all
  have ap: "after_page srv s u ?st =
      \<lparr>issues = acc @ filter (accepts s u) (json (srv p)), page = Suc p, requests = reqs @ [p]\<rparr>"
    by (simp add: after_page_def)
  have a: "accepted_from srv s u p (p + Suc n) =
      filter (accepts s u) (json (srv p)) @ accepted_from srv s u (Suc p) (Suc p + n)"
    using accepted_from_first [of p "p + Suc n" srv s u] by simp
  have b: "[p..<p + Suc n] = p # [Suc p..<Suc p + n]"
    using upt_conv_Cons [of p "p + Suc n"] by simp
  have "fetch_loop srv s u ?st =
      fetch_loop srv s u
        \<lparr>issues = acc @ filter (accepts s u) (json (srv p)), page = Suc p,
         requests = reqs @ [p]\<rparr>"
    unfolding step ap ..
  also have "\<dots> =
      fetch_loop srv s u
        \<lparr>issues = (acc @ filter (accepts s u) (json (srv p)))
           @ accepted_from srv s u (Suc p) (Suc p + n),
         page = Suc p + n,
         requests = (reqs @ [p]) @ [Suc p..<Suc p + n]\<rparr>"
    by (rule Suc.IH [OF rest])
  also have "(acc @ filter (accepts s u) (json (srv p)))
           @ accepted_from srv s u (Suc p) (Suc p + n) =
      acc @ accepted_from srv s u p (p + Suc n)"
    by (simp only: a append_assoc)
  also have "(reqs @ [p]) @ [Suc p..<Suc p + n] = reqs @ [p..<p + Suc n]"
    by (simp only: b append_assoc append_Cons append_Nil)
  also have "Suc p + n = p + Suc n" by simp
  finally show ?case .
qed

lemma last_is_older_no_timestamp:
  "xs \<noteq> [] \<Longrightarrow> no_closing_timestamp (last xs) \<Longrightarrow> last_is_older s xs = Inr False"
  by (auto simp: last_is_older_def no_closing_timestamp_def)


lemma fetch_body_keeps:
  assumes inv: "\<forall>i\<in>set (issues st). accepts s u i \<and> from_fetched_page srv (requests st) i"
    and body: "fetch_body srv s u st = Break st' \<or> fetch_body srv s u st = Next st'"
  shows "\<forall>i\<in>set (issues st'). accepts s u i \<and> from_fetched_page srv (requests st') i"
proof -
  have grow: "from_fetched_page srv (requests st @ [page st]) i"
    if "from_fetched_page srv (requests st) i" for i
    using that by (auto simp: from_fetched_page_def)
  show ?thesis
  proof (cases "status_code (srv (page st)) = 200 \<and> json (srv (page st)) \<noteq> []")
    case False
    then have "fetch_body srv s u st = Break (after_request st)"
      using fetch_body_failure [of srv st s u] fetch_body_empty [of srv st s u] by blast
    with body have "st' = after_request st" by simp
    then show ?thesis using inv grow by (simp add: after_request_def)
  next
    case True
    then have ok: "status_code (srv (page st)) = 200" "json (srv (page st)) \<noteq> []"
      by simp_all
    have p: "filter_parses (json (srv (page st)))"
    proof (rule ccontr)
      assume "\<not> filter_parses (json (srv (page st)))"
      then have "fetch_body srv s u st = Raise ValueError (after_request st)"
        by (rule fetch_body_raise_filter [of srv st, OF ok(1)])
      with body show False by auto
    qed
    have "st' = after_page srv s u st"
      using body unfolding fetch_body_page [of srv st s u, OF ok p]
      by (auto split: sum.splits if_splits)
    moreover have "from_fetched_page srv (requests st @ [page st]) i"
      if "i \<in> set (json (srv (page st)))" for i
      using that ok by (auto simp: from_fetched_page_def)
    ultimately show ?thesis using inv grow by (auto simp: after_page_def)
  qed
qed

lemma fetch_loop_returns_accepted:
  assumes "fetch_loop srv s u st = Some r"
  shows "(\<forall>i\<in>set (issues st). accepts s u i \<and> from_fetched_page srv (requests st) i) \<longrightarrow>
     (\<forall>returned. outcome r = Inr returned \<longrightarrow>
        (\<forall>i\<in>set returned. accepts s u i \<and> from_fetched_page srv (requested r) i))"
proof (rule fetch_loop.raw_induct [where P = "\<lambda>srv s u st r.
    (\<forall>i\<in>set (issues st). accepts s u i \<and> from_fetched_page srv (requests st) i) \<longrightarrow>
     (\<forall>returned. outcome r = Inr returned \<longrightarrow>
        (\<forall>i\<in>set returned. accepts s u i \<and> from_fetched_page srv (requested r) i))",
    OF _ assms])
  fix loop :: "server \<Rightarrow> datetime \<Rightarrow> datetime option \<Rightarrow> fetch_state \<Rightarrow> fetch_result option"
  fix srv s u st r
  assume IH: "\<And>srv s u st r. loop srv s u st = Some r \<Longrightarrow>
    (\<forall>i\<in>set (issues st). accepts s u i \<and> from_fetched_page srv (requests st) i) \<longrightarrow>
     (\<forall>returned. outcome r = Inr returned \<longrightarrow>
        (\<forall>i\<in>set returned. accepts s u i \<and> from_fetched_page srv (requested r) i))"
  assume eq: "(case fetch_body srv s u st of
      Break st' \<Rightarrow> Some \<lparr>outcome = Inr (issues st'), requested = requests st'\<rparr>
    | Raise e st' \<Rightarrow> Some \<lparr>outcome = Inl e, requested = requests st'\<rparr>
    | Next st' \<Rightarrow> loop srv s u st') = Some r"
  show "(\<forall>i\<in>set (issues st). accepts s u i \<and> from_fetched_page srv (requests st) i) \<longrightarrow>
     (\<forall>returned. outcome r = Inr returned \<longrightarrow>
        (\<forall>i\<in>set returned. accepts s u i \<and> from_fetched_page srv (requested r) i))"
  proof (cases "fetch_body srv s u st")
    case (Break st')
    with eq have r: "r = \<lparr>outcome = Inr (issues st'), requested = requests st'\<rparr>"
      by simp
    show ?thesis
      using fetch_body_keeps [of st s u srv st'] Break unfolding r by simp
  next
    case (Raise e st')
    with eq have "r = \<lparr>outcome = Inl e, requested = requests st'\<rparr>" by simp
    then show ?thesis by simp
  next
    case (Next st')
    with eq have "loop srv s u st' = Some r" by simp
    from IH [OF this] fetch_body_keeps [of st s u srv st'] Next
    show ?thesis by blast
  qed
qed

subsection \<open>Evaluations on the sample pages\<close>

lemma parse_1201_00: "strptime_wire ''2023-12-01T00:00:00Z'' =
  Some \<lparr>year = 2023, month = 12, day = 1, hour = 0, minute = 0, second = 0, microsecond = 0\<rparr>"
  by code_simp
lemma parse_garbled: "strptime_wire ''not-a-date'' = None"
  by code_simp

lemmas page_parses = parse_1201_00 parse_0103_08 parse_0110_09 parse_0101_23 parse_garbled

lemma sample_not_malformed:
  "\<not> malformed issue_jan10" "\<not> malformed issue_jan01" "\<not> malformed unlabelled_issue"
  "\<not> malformed old_issue" "\<not> malformed open_issue" "\<not> malformed reopened_issue"
  "malformed garbled_issue"
  by (simp_all add: malformed_def issue_jan10_def issue_jan01_def unlabelled_issue_def
      old_issue_def open_issue_def reopened_issue_def garbled_issue_def sample_issue_def
      page_parses)

lemma sample_not_pull_request:
  "\<not> pull_request issue_jan10" "\<not> pull_request issue_jan01" "\<not> pull_request unlabelled_issue"
  "\<not> pull_request old_issue" "\<not> pull_request open_issue" "\<not> pull_request reopened_issue"
  "\<not> pull_request garbled_issue"
  by (simp_all add: issue_jan10_def issue_jan01_def unlabelled_issue_def
      old_issue_def open_issue_def reopened_issue_def garbled_issue_def sample_issue_def)

lemma sample_accepts:
  "accepts since_2024 None issue_jan10" "accepts since_2024 None issue_jan01"
  "accepts since_2024 None unlabelled_issue" "accepts since_2024 None reopened_issue"
  "\<not> accepts since_2024 None old_issue" "\<not> accepts since_2024 None open_issue"
  by (simp_all add: accepts_def issue_jan10_def issue_jan01_def unlabelled_issue_def
      old_issue_def open_issue_def reopened_issue_def sample_issue_def
      page_parses dt_le_def dt_key_def since_2024_def)

lemma sample_last_is_older:
  "last_is_older since_2024 [issue_jan10, open_issue] = Inr False"
  "last_is_older since_2024 [issue_jan10, unlabelled_issue] = Inr False"
  "last_is_older since_2024 [issue_jan01, old_issue] = Inr True"
  "last_is_older since_2024 [old_issue, open_issue] = Inr False"
  "last_is_older since_2024 [reopened_issue] = Inr False"
  by (simp_all add: last_is_older_def issue_jan10_def issue_jan01_def unlabelled_issue_def
      old_issue_def open_issue_def reopened_issue_def sample_issue_def
      page_parses dt_lt_def dt_key_def since_2024_def)

subsection \<open>Missing and malformed closing timestamps\<close>

text \<open>
  Claim C2, as the code has it. A record whose closing timestamp is absent, null or the
  empty string is dropped: the filter loop gives the same result as on the page without
  that record. A record that is not a pull request and whose closing timestamp is a
  non-empty string outside the wire format makes \<^verbatim>\<open>strptime\<close> raise: the fetch ends at that
  page with \<^verbatim>\<open>ValueError\<close> and returns no list.
\<close>

theorem closing_timestamp_handling:
  "(no_closing_timestamp x \<longrightarrow>
      filter_page since_date until_date (pre @ x # rest) acc =
      filter_page since_date until_date (pre @ rest) acc)
   \<and> (status_code (srv (page st)) = 200 \<and> x \<in> set (json (srv (page st)))
        \<and> \<not> pull_request x \<and> malformed x \<longrightarrow>
      fetch_loop srv since_date until_date st =
        Some \<lparr>outcome = Inl ValueError, requested = requests st @ [page st]\<rparr>)"
proof (intro conjI impI)
  assume "no_closing_timestamp x"
  then show "filter_page since_date until_date (pre @ x # rest) acc =
      filter_page since_date until_date (pre @ rest) acc"
    by (rule filter_page_drop)
next
  assume a: "status_code (srv (page st)) = 200 \<and> x \<in> set (json (srv (page st)))
        \<and> \<not> pull_request x \<and> malformed x"
  then have "\<not> filter_parses (json (srv (page st)))"
    by (auto simp: filter_parses_def list_all_iff)
  with a have "fetch_body srv since_date until_date st = Raise ValueError (after_request st)"
    by (intro fetch_body_raise_filter) simp_all
  then have "fetch_loop srv since_date until_date st =
      Some \<lparr>outcome = Inl ValueError, requested = requests (after_request st)\<rparr>"
    by (rule fetch_loop_Raise)
  then show "fetch_loop srv since_date until_date st =
        Some \<lparr>outcome = Inl ValueError, requested = requests st @ [page st]\<rparr>"
    by (simp add: after_request_def)
qed

theorem closing_timestamp_handling_witness:
  "no_closing_timestamp open_issue
   \<and> filter_page since_2024 None [issue_jan10, open_issue, unlabelled_issue] [] =
       Inr [issue_jan10, unlabelled_issue]
   \<and> malformed garbled_issue
   \<and> fetch_loop garbled_server since_2024 None \<lparr>issues = [], page = 1, requests = []\<rparr> =
       Some \<lparr>outcome = Inl ValueError, requested = [1]\<rparr>"
proof -
  let ?st = "\<lparr>issues = [], page = 1, requests = []\<rparr>"
  have n: "no_closing_timestamp open_issue"
    by (simp add: no_closing_timestamp_def open_issue_def sample_issue_def)
  have g: "status_code (garbled_server (page ?st)) = 200
      \<and> garbled_issue \<in> set (json (garbled_server (page ?st)))
      \<and> \<not> pull_request garbled_issue \<and> malformed garbled_issue"
    by (simp add: garbled_server_def sample_not_malformed sample_not_pull_request)
  have k: "filter_page since_2024 None [issue_jan10, unlabelled_issue] [] =
      Inr [issue_jan10, unlabelled_issue]"
    by (subst filter_page_parses)
       (simp_all add: filter_parses_def sample_not_malformed sample_accepts)
  have 1: "filter_page since_2024 None ([issue_jan10] @ open_issue # [unlabelled_issue]) [] =
      filter_page since_2024 None ([issue_jan10] @ [unlabelled_issue]) []"
    using closing_timestamp_handling
      [of open_issue since_2024 None "[issue_jan10]" "[unlabelled_issue]" "[]"] n
    by blast
  have 2: "fetch_loop garbled_server since_2024 None ?st =
      Some \<lparr>outcome = Inl ValueError, requested = requests ?st @ [page ?st]\<rparr>"
    using closing_timestamp_handling
      [of garbled_issue since_2024 None "[]" "[]" "[]" garbled_server ?st] g
    by blast
  from n g 1 2 k show ?thesis by simp
qed

text \<open>
  Claim C2 as stated fails: a page with a malformed closing timestamp between two good
  records does not lose that record alone, the whole fetch raises \<^verbatim>\<open>ValueError\<close>.
\<close>

theorem malformed_timestamp_counterexample:
  "get_closed_issues garbled_server since_2024 None =
     Some \<lparr>outcome = Inl ValueError, requested = [1]\<rparr>"
proof -
  let ?st = "\<lparr>issues = [], page = 1, requests = []\<rparr>"
  have "fetch_body garbled_server since_2024 None ?st = Raise ValueError (after_request ?st)"
    by (rule fetch_body_raise_filter)
       (simp_all add: garbled_server_def filter_parses_def sample_not_malformed
          sample_not_pull_request)
  then have "fetch_loop garbled_server since_2024 None ?st =
      Some \<lparr>outcome = Inl ValueError, requested = requests (after_request ?st)\<rparr>"
    by (rule fetch_loop_Raise)
  then show ?thesis
    by (simp add: get_closed_issues_def after_request_def)
qed

subsection \<open>What the returned issues satisfy\<close>

text \<open>
  Claim C3, as the code has it. Every issue of the returned list carries no
  \<^verbatim>\<open>pull_request\<close> marker, has a closing timestamp that parses to a time from
  \<^verbatim>\<open>since_date\<close> on and, when \<^verbatim>\<open>until_date\<close> is given, up to it, and is a record of a page
  that a successful request brought. The loop never reads the \<^verbatim>\<open>state\<close> field (the state is
  only a parameter of the request): a returned issue has state closed when the fetched
  pages hold closed-state records only.
\<close>

theorem returned_issues_accepted:
  assumes "get_closed_issues srv since_date until_date = Some r"
    and "outcome r = Inr returned"
    and "i \<in> set returned"
  shows "\<not> pull_request i
     \<and> (\<exists>str d. closed_at i = Some str \<and> strptime_wire str = Some d
           \<and> dt_le since_date d \<and> (\<forall>u. until_date = Some u \<longrightarrow> dt_le d u))
     \<and> from_fetched_page srv (requested r) i
     \<and> ((\<forall>p \<in> set (requested r). \<forall>x \<in> set (json (srv p)). state x = ''closed'')
          \<longrightarrow> state i = ''closed'')"
proof -
  have "accepts since_date until_date i \<and> from_fetched_page srv (requested r) i"
    using fetch_loop_returns_accepted [of srv since_date until_date
        "\<lparr>issues = [], page = 1, requests = []\<rparr>" r] assms
    unfolding get_closed_issues_def by simp
  then show ?thesis
    unfolding accepts_window from_fetched_page_def by blast
qed

theorem returned_issues_accepted_witness:
  "get_closed_issues paged_server since_2024 None =
       Some \<lparr>outcome = Inr [issue_jan10, unlabelled_issue, issue_jan01], requested = [1, 2]\<rparr>
   \<and> \<not> pull_request issue_jan01
   \<and> (\<exists>str d. closed_at issue_jan01 = Some str \<and> strptime_wire str = Some d
           \<and> dt_le since_2024 d)
   \<and> from_fetched_page paged_server [1, 2] issue_jan01"
proof -
  let ?r = "\<lparr>outcome = Inr [issue_jan10, unlabelled_issue, issue_jan01], requested = [1, 2]\<rparr>"
  have c1: "continues since_2024 (paged_server (page \<lparr>issues = [], page = 1, requests = []\<rparr>))"
    by (simp add: continues_def paged_server_def filter_parses_def sample_not_malformed
        sample_last_is_older)
  have "fetch_loop paged_server since_2024 None \<lparr>issues = [], page = 1, requests = []\<rparr> =
      fetch_loop paged_server since_2024 None
        (after_page paged_server since_2024 None \<lparr>issues = [], page = 1, requests = []\<rparr>)"
    by (rule fetch_loop_Next)
       (rule fetch_body_continues [of since_2024 paged_server "\<lparr>issues = [], page = 1, requests = []\<rparr>" None,
          OF c1])
  also have "after_page paged_server since_2024 None \<lparr>issues = [], page = 1, requests = []\<rparr> =
      \<lparr>issues = [issue_jan10, unlabelled_issue], page = 2, requests = [1]\<rparr>"
    by (simp add: after_page_def paged_server_def sample_accepts)
  also have "fetch_loop paged_server since_2024 None
        \<lparr>issues = [issue_jan10, unlabelled_issue], page = 2, requests = [1]\<rparr> = Some ?r"
  proof -
    let ?st = "\<lparr>issues = [issue_jan10, unlabelled_issue], page = 2, requests = [1]\<rparr>"
    have "fetch_body paged_server since_2024 None ?st =
        Break (after_page paged_server since_2024 None ?st)"
      by (subst fetch_body_page)
         (simp_all add: paged_server_def filter_parses_def sample_not_malformed
            sample_last_is_older)
    then have "fetch_loop paged_server since_2024 None ?st =
        Some \<lparr>outcome = Inr (issues (after_page paged_server since_2024 None ?st)),
              requested = requests (after_page paged_server since_2024 None ?st)\<rparr>"
      by (rule fetch_loop_Break)
    then show ?thesis
      by (simp add: after_page_def paged_server_def sample_accepts)
  qed
  finally have g: "get_closed_issues paged_server since_2024 None = Some ?r"
    unfolding get_closed_issues_def .
  have o: "outcome ?r = Inr [issue_jan10, unlabelled_issue, issue_jan01]" by simp
  have m: "issue_jan01 \<in> set [issue_jan10, unlabelled_issue, issue_jan01]" by simp
  from returned_issues_accepted [OF g o m] g show ?thesis by auto
qed

text \<open>
  Claim C3 as stated fails: a record in the window whose \<^verbatim>\<open>state\<close> is open is returned.
\<close>

theorem state_not_checked_counterexample:
  "get_closed_issues reopened_server since_2024 None =
       Some \<lparr>outcome = Inr [reopened_issue], requested = [1, 2]\<rparr>
   \<and> state reopened_issue = ''open''"
proof -
  have c1: "continues since_2024 (reopened_server (page \<lparr>issues = [], page = 1, requests = []\<rparr>))"
    by (simp add: continues_def reopened_server_def filter_parses_def sample_not_malformed
        sample_last_is_older)
  have "fetch_loop reopened_server since_2024 None \<lparr>issues = [], page = 1, requests = []\<rparr> =
      fetch_loop reopened_server since_2024 None
        (after_page reopened_server since_2024 None \<lparr>issues = [], page = 1, requests = []\<rparr>)"
    by (rule fetch_loop_Next)
       (rule fetch_body_continues [of since_2024 reopened_server "\<lparr>issues = [], page = 1, requests = []\<rparr>" None,
          OF c1])
  also have "after_page reopened_server since_2024 None \<lparr>issues = [], page = 1, requests = []\<rparr> =
      \<lparr>issues = [reopened_issue], page = 2, requests = [1]\<rparr>"
    by (simp add: after_page_def reopened_server_def sample_accepts)
  also have "fetch_loop reopened_server since_2024 None
        \<lparr>issues = [reopened_issue], page = 2, requests = [1]\<rparr> =
      Some \<lparr>outcome = Inr [reopened_issue], requested = [1, 2]\<rparr>"
  proof -
    let ?st = "\<lparr>issues = [reopened_issue], page = 2, requests = [1]\<rparr>"
    have "fetch_body reopened_server since_2024 None ?st = Break (after_request ?st)"
      by (rule fetch_body_empty) (simp_all add: reopened_server_def)
    then have "fetch_loop reopened_server since_2024 None ?st =
        Some \<lparr>outcome = Inr (issues (after_request ?st)),
              requested = requests (after_request ?st)\<rparr>"
      by (rule fetch_loop_Break)
    then show ?thesis by (simp add: after_request_def)
  qed
  finally have "get_closed_issues reopened_server since_2024 None =
       Some \<lparr>outcome = Inr [reopened_issue], requested = [1, 2]\<rparr>"
    unfolding get_closed_issues_def .
  moreover have "state reopened_issue = ''open''"
    by (simp add: reopened_issue_def)
  ultimately show ?thesis by simp
qed

subsection \<open>Early termination\<close>



subsection \<open>A request that fails\<close>

text \<open>
  Claim C5. When the requests for the pages before \<open>k\<close> each bring a page after which the
  loop goes on, and the request for page \<open>k\<close> has a status other than 200, the fetch makes
  no further request and returns the issues accepted from the pages before \<open>k\<close>.
\<close>

theorem partial_result_on_failure:
  assumes "1 \<le> k"
    and "\<forall>p \<in> {1..<k}. continues since_date (srv p)"
    and "status_code (srv k) \<noteq> 200"
  shows "get_closed_issues srv since_date until_date =
     Some \<lparr>outcome = Inr (accepted_from srv since_date until_date 1 k),
           requested = [1..<Suc k]\<rparr>"
proof -
  let ?st = "\<lparr>issues = [] @ accepted_from srv since_date until_date 1 (1 + (k - 1)),
      page = 1 + (k - 1), requests = [] @ [1..<1 + (k - 1)]\<rparr>"
  have c: "\<And>q. 1 \<le> q \<Longrightarrow> q < 1 + (k - 1) \<Longrightarrow> continues since_date (srv q)"
    using assms(2) by simp
  have "get_closed_issues srv since_date until_date = fetch_loop srv since_date until_date ?st"
    unfolding get_closed_issues_def by (rule fetch_loop_continues [OF c])
  moreover have "status_code (srv (page ?st)) \<noteq> 200"
    using assms(1,3) by simp
  then have "fetch_body srv since_date until_date ?st = Break (after_request ?st)"
    by (rule fetch_body_failure)
  then have "fetch_loop srv since_date until_date ?st =
      Some \<lparr>outcome = Inr (issues (after_request ?st)),
            requested = requests (after_request ?st)\<rparr>"
    by (rule fetch_loop_Break)
  moreover have "issues (after_request ?st) = accepted_from srv since_date until_date 1 k"
    using assms(1) by (simp add: after_request_def)
  moreover have "requests (after_request ?st) = [1..<Suc k]"
    using assms(1) by (simp add: after_request_def)
  ultimately show ?thesis by simp
qed

theorem partial_result_on_failure_witness:
  "continues since_2024 (failing_server 1) \<and> status_code (failing_server 2) = 500
   \<and> get_closed_issues failing_server since_2024 None =
       Some \<lparr>outcome = Inr [issue_jan10], requested = [1, 2]\<rparr>"
proof -
  have c: "continues since_2024 (failing_server 1)"
    by (simp add: continues_def failing_server_def filter_parses_def sample_not_malformed
        sample_last_is_older)
  have h1: "(1::nat) \<le> 2" by simp
  have h2: "\<forall>p \<in> {1..<2}. continues since_2024 (failing_server p)"
  proof
    fix p :: nat
    assume "p \<in> {1..<2}"
    then have "p = 1" by auto
    then show "continues since_2024 (failing_server p)" using c by simp
  qed
  have h3: "status_code (failing_server 2) \<noteq> 200"
    by (simp add: failing_server_def)
  have a: "accepted_from failing_server since_2024 None 1 2 = [issue_jan10]"
    by (simp add: accepted_from_def upt_conv_Cons failing_server_def sample_accepts)
  have r: "[1..<Suc 2] = [1, 2]" by (simp add: upt_conv_Cons)
  have s: "status_code (failing_server 2) = 500" by (simp add: failing_server_def)
  from partial_result_on_failure [OF h1 h2 h3, of None] c s show ?thesis
    unfolding a r by simp
qed

subsection \<open>A last record without closing timestamp\<close>

text \<open>
  Claim C9, as the code has it. On a successful, non-empty page whose last record has no
  closing timestamp, the pass through the loop body never ends in a break: the
  comparison with \<^verbatim>\<open>since_date\<close> is skipped. When no closing timestamp of the page is
  malformed, the loop goes on with the next page, whose request is the next one made,
  whatever the closing dates of the records of the page are. When a record of the page
  that is not a pull request has a malformed closing timestamp, the fetch ends at this
  page by raising \<^verbatim>\<open>ValueError\<close> and the next page is not requested.
\<close>

theorem no_stop_without_last_timestamp:
  assumes "status_code (srv (page st)) = 200"
    and "json (srv (page st)) \<noteq> []"
    and "no_closing_timestamp (last (json (srv (page st))))"
  shows "(\<forall>st'. fetch_body srv since_date until_date st \<noteq> Break st')
     \<and> (filter_parses (json (srv (page st))) \<longrightarrow>
          fetch_body srv since_date until_date st = Next (after_page srv since_date until_date st)
          \<and> fetch_loop srv since_date until_date st =
              fetch_loop srv since_date until_date (after_page srv since_date until_date st)
          \<and> requests (step_state (fetch_body srv since_date until_date
                (after_page srv since_date until_date st))) =
              requests st @ [page st, page st + 1])
     \<and> (\<not> filter_parses (json (srv (page st))) \<longrightarrow>
          fetch_body srv since_date until_date st = Raise ValueError (after_request st)
          \<and> fetch_loop srv since_date until_date st =
              Some \<lparr>outcome = Inl ValueError, requested = requests st @ [page st]\<rparr>)"
proof -
  have l: "last_is_older since_date (json (srv (page st))) = Inr False"
    using assms(2,3) by (rule last_is_older_no_timestamp)
  have n: "fetch_body srv since_date until_date st = Next (after_page srv since_date until_date st)"
    if "filter_parses (json (srv (page st)))"
    unfolding fetch_body_page [of srv st since_date until_date, OF assms(1,2) that]
    by (simp only: l sum.case if_False)
  have e: "fetch_body srv since_date until_date st = Raise ValueError (after_request st)"
    if "\<not> filter_parses (json (srv (page st)))"
    using that by (rule fetch_body_raise_filter [of srv st, OF assms(1)])
  have 1: "fetch_body srv since_date until_date st \<noteq> Break st'" for st'
  proof (cases "filter_parses (json (srv (page st)))")
    case True
    then show ?thesis using n by simp
  next
    case False
    then show ?thesis using e by simp
  qed
  have 2: "requests (step_state (fetch_body srv since_date until_date
                (after_page srv since_date until_date st))) =
              requests st @ [page st, page st + 1]"
    unfolding fetch_body_requests by (simp add: after_page_def)
  have 3: "fetch_loop srv since_date until_date st =
              Some \<lparr>outcome = Inl ValueError, requested = requests st @ [page st]\<rparr>"
    if "\<not> filter_parses (json (srv (page st)))"
    using fetch_loop_Raise [OF e [OF that]] by (simp add: after_request_def)
  from 1 2 3 n e fetch_loop_Next [of srv since_date until_date st] show ?thesis by blast
qed

theorem no_stop_without_last_timestamp_witness:
  "list_all (\<lambda>x. \<not> accepts since_2024 None x) (json (stale_server 1))
   \<and> no_closing_timestamp (last (json (stale_server 1)))
   \<and> fetch_body stale_server since_2024 None \<lparr>issues = [], page = 1, requests = []\<rparr> =
       Next \<lparr>issues = [], page = 2, requests = [1]\<rparr>
   \<and> requests (step_state (fetch_body stale_server since_2024 None
        \<lparr>issues = [], page = 2, requests = [1]\<rparr>)) = [1, 2]"
proof -
  let ?st = "\<lparr>issues = [], page = 1, requests = []\<rparr>"
  have h1: "status_code (stale_server (page ?st)) = 200"
    by (simp add: stale_server_def)
  have h2: "json (stale_server (page ?st)) \<noteq> []"
    by (simp add: stale_server_def)
  have h3: "no_closing_timestamp (last (json (stale_server (page ?st))))"
    by (simp add: stale_server_def no_closing_timestamp_def open_issue_def sample_issue_def)
  have p: "filter_parses (json (stale_server (page ?st)))"
    by (simp add: stale_server_def filter_parses_def sample_not_malformed)
  have old: "list_all (\<lambda>x. \<not> accepts since_2024 None x) (json (stale_server 1))"
    by (simp add: stale_server_def sample_accepts)
  have ap: "after_page stale_server since_2024 None ?st = \<lparr>issues = [], page = 2, requests = [1]\<rparr>"
    by (simp add: after_page_def stale_server_def sample_accepts)
  from no_stop_without_last_timestamp [of stale_server ?st since_2024 None, OF h1 h2 h3] p
  have "fetch_body stale_server since_2024 None ?st =
          Next (after_page stale_server since_2024 None ?st)
      \<and> requests (step_state (fetch_body stale_server since_2024 None
            (after_page stale_server since_2024 None ?st))) =
          requests ?st @ [page ?st, page ?st + 1]"
    by blast
  with old h3 show ?thesis unfolding ap by simp
qed

text \<open>
  Claim C9 as stated fails: on a first page that ends with an open record and holds a
  malformed closing timestamp, the fetch raises \<^verbatim>\<open>ValueError\<close> and never requests the
  second page.
\<close>

theorem raise_before_next_page_counterexample:
  "status_code (garbled_stale_server 1) = 200
   \<and> json (garbled_stale_server 1) = [garbled_issue, open_issue]
   \<and> no_closing_timestamp (last (json (garbled_stale_server 1)))
   \<and> get_closed_issues garbled_stale_server since_2024 None =
       Some \<lparr>outcome = Inl ValueError, requested = [1]\<rparr>"
proof -
  let ?st = "\<lparr>issues = [], page = 1, requests = []\<rparr>"
  have "fetch_body garbled_stale_server since_2024 None ?st =
      Raise ValueError (after_request ?st)"
    by (rule fetch_body_raise_filter)
       (simp_all add: garbled_stale_server_def filter_parses_def sample_not_malformed
          sample_not_pull_request)
  then have "fetch_loop garbled_stale_server since_2024 None ?st =
      Some \<lparr>outcome = Inl ValueError, requested = requests (after_request ?st)\<rparr>"
    by (rule fetch_loop_Raise)
  then have "get_closed_issues garbled_stale_server since_2024 None =
       Some \<lparr>outcome = Inl ValueError, requested = [1]\<rparr>"
    by (simp add: get_closed_issues_def after_request_def)
  moreover have "no_closing_timestamp (last (json (garbled_stale_server 1)))"
    by (simp add: garbled_stale_server_def no_closing_timestamp_def open_issue_def
        sample_issue_def)
  ultimately show ?thesis by (simp add: garbled_stale_server_def)
qed

section \<open>Properties of the exports\<close>

lemma join_two: "join sep [a, b] = a @ sep @ b"
  by simp

lemma csv_fields_joined:
  "i < length (issues_detail a) \<Longrightarrow>
   c_assignees (export_csv_report a ! i) = join ''; '' (d_assignees (issues_detail a ! i))
   \<and> c_labels (export_csv_report a ! i) = join ''; '' (d_labels (issues_detail a ! i))"
  by (simp add: export_csv_report_def csv_row_of_def)

lemma export_json_report_no_combinations:
  "labels_combinations a = [] \<Longrightarrow>
   \<exists>doc. export_json_report owner repo a = Inr doc \<and> j_issues doc = issues_detail a"
  by (simp add: export_json_report_def Let_def)

lemma export_json_report_raises:
  "labels_combinations a \<noteq> [] \<Longrightarrow> export_json_report owner repo a = Inl TypeError"
  by (simp add: export_json_report_def Let_def)

lemma fold_incr_not_Nil:
  assumes "ks \<noteq> []"
  shows "fold incr ks m \<noteq> []"
proof
  assume "fold incr ks m = []"
  then have "sum_values (fold incr ks m) = 0" by (simp add: sum_values_Nil)
  then have "length ks = 0" unfolding sum_values_fold_incr by simp
  with assms show False by simp
qed

lemma labelled_batch_json_raises:
  assumes "list_all well_timed issue_list" and "\<exists>i \<in> set issue_list. labels i \<noteq> []"
  shows "\<exists>a. analyze_issues issue_list = Inr a
    \<and> export_json_report owner repo a = Inl TypeError"
proof -
  from analyze_issues_fields [OF assms(1)] obtain a where
    a: "analyze_issues issue_list = Inr a" and
    c: "labels_combinations a =
        fold incr (map (\<lambda>i. sort (labels i)) (filter (\<lambda>i. labels i \<noteq> []) issue_list)) []"
    by blast
  from assms(2) have "filter (\<lambda>i. labels i \<noteq> []) issue_list \<noteq> []"
    by (auto simp: filter_empty_conv)
  then have "labels_combinations a \<noteq> []"
    unfolding c by (intro fold_incr_not_Nil) simp
  then have "export_json_report owner repo a = Inl TypeError"
    by (rule export_json_report_raises)
  with a show ?thesis by blast
qed

lemma two_assignee_well_timed:
  "list_all well_timed [two_assignee_issue]" "list_all well_timed [two_assignee_unlabelled]"
  by (simp_all add: two_assignee_issue_def two_assignee_unlabelled_def sample_issue_def
      well_timed_def sample_parses)

text \<open>
  Claim C8 at an issue with the assignees alice and bob and the label bug: the CSV row has
  the field \<^verbatim>\<open>alice; bob\<close>, and the JSON export raises \<^verbatim>\<open>TypeError\<close> on the tuple key of
  \<^verbatim>\<open>labels_combinations\<close>, so that no entry of \<^verbatim>\<open>issues\<close> is written.
\<close>

theorem json_export_raises_on_labelled_issue:
  "map_sum id (map c_assignees \<circ> export_csv_report) (analyze_issues [two_assignee_issue]) =
     Inr [''alice; bob'']
   \<and> case_sum Inl (export_json_report ''octo'' ''repo'') (analyze_issues [two_assignee_issue]) =
     Inl TypeError"
proof -
  from analyze_issues_fields [OF two_assignee_well_timed(1)] obtain a where
    a: "analyze_issues [two_assignee_issue] = Inr a" and
    c: "labels_combinations a =
        fold incr (map (\<lambda>i. sort (labels i)) (filter (\<lambda>i. labels i \<noteq> []) [two_assignee_issue])) []"
    and d: "issues_detail a =
        map (\<lambda>i. issue_summary i (timedelta_days (closed_of i) (created_of i))) [two_assignee_issue]"
    by blast
  have l: "labels two_assignee_issue = [''bug'']"
    and s: "assignees two_assignee_issue = [''alice'', ''bob'']"
    by (simp_all add: two_assignee_issue_def sample_issue_def)
  have "labels_combinations a \<noteq> []"
    unfolding c by (simp add: l)
  then have j: "export_json_report ''octo'' ''repo'' a = Inl TypeError"
    by (rule export_json_report_raises)
  have "map c_assignees (export_csv_report a) = [''alice; bob'']"
    by (simp add: export_csv_report_def csv_row_of_def d issue_summary_def s)
  with a j show ?thesis by simp
qed

lemma json_export_keeps_lists_without_labels:
  "map_sum id (map d_assignees \<circ> j_issues)
     (case_sum Inl (export_json_report ''octo'' ''repo'') (analyze_issues [two_assignee_unlabelled])) =
     Inr [[''alice'', ''bob'']]"
proof -
  from analyze_issues_fields [OF two_assignee_well_timed(2)] obtain a where
    a: "analyze_issues [two_assignee_unlabelled] = Inr a" and
    c: "labels_combinations a =
        fold incr (map (\<lambda>i. sort (labels i))
          (filter (\<lambda>i. labels i \<noteq> []) [two_assignee_unlabelled])) []"
    and d: "issues_detail a =
        map (\<lambda>i. issue_summary i (timedelta_days (closed_of i) (created_of i)))
          [two_assignee_unlabelled]"
    by blast
  have l: "labels two_assignee_unlabelled = []"
    and s: "assignees two_assignee_unlabelled = [''alice'', ''bob'']"
    by (simp_all add: two_assignee_unlabelled_def sample_issue_def)
  have "labels_combinations a = []"
    unfolding c by (simp add: l)
  then show ?thesis
    by (simp add: a export_json_report_def Let_def d issue_summary_def s)
qed

end
